theory Spec2Isabelle
  imports Main
begin

section \<open>Python values, exceptions and containers\<close>

text \<open>
  The parser of \<^verbatim>\<open>src/geotolktools/parser.py\<close> works on lists of text lines and builds
  dictionaries of field values. A field value is a string, an integer or the missing-value
  marker \<^verbatim>\<open>np.nan\<close>; these are the values the parser itself creates or inspects. A
  character of the model is a code point below 256, so the model covers the text of the
  Latin-1 range, and the string operations below follow Python on these code points.

  Every \<^verbatim>\<open>raise\<close> of the source and of the built-in operations it calls is a value
  \<open>Inl e\<close> of a sum type; \<open>Inr v\<close> is a normal return.
\<close>

datatype exn = IndexError | ValueError | KeyError | TypeError | UnboundLocalError

datatype val = Nan | Str string | Num int

type_synonym 'a result = "exn + 'a"

text \<open>A Python \<^verbatim>\<open>dict\<close> with string keys keeps its insertion order: assigning to an
  existing key keeps the key's position, a new key goes to the end.\<close>

type_synonym dict = "(string \<times> val) list"

fun setitem :: "string \<Rightarrow> val \<Rightarrow> dict \<Rightarrow> dict" where
  "setitem k v [] = [(k, v)]"
| "setitem k v ((k', v') # d) = (if k' = k then (k, v) # d else (k', v') # setitem k v d)"

text \<open>\<^verbatim>\<open>{**a, **b}\<close>\<close>

definition dict_merge :: "dict \<Rightarrow> dict \<Rightarrow> dict" where
  "dict_merge a b = fold (\<lambda>(k, v). setitem k v) b a"

text \<open>\<^verbatim>\<open>d[k]\<close>\<close>

definition dict_get :: "dict \<Rightarrow> string \<Rightarrow> val result" where
  "dict_get d k = (case map_of d k of None \<Rightarrow> Inl KeyError | Some v \<Rightarrow> Inr v)"

text \<open>\<^verbatim>\<open>xs[i]\<close>: a negative index counts from the end, an index outside the list raises.\<close>

definition getitem :: "'a list \<Rightarrow> int \<Rightarrow> 'a result" where
  "getitem xs i =
     (if 0 \<le> i \<and> i < int (length xs) then Inr (xs ! nat i)
      else if i < 0 \<and> - int (length xs) \<le> i then Inr (xs ! nat (int (length xs) + i))
      else Inl IndexError)"

text \<open>A list comprehension whose element expression may raise.\<close>

fun mapM :: "('a \<Rightarrow> 'b result) \<Rightarrow> 'a list \<Rightarrow> 'b list result" where
  "mapM f [] = Inr []"
| "mapM f (x # xs) =
     (case f x of Inl e \<Rightarrow> Inl e
      | Inr y \<Rightarrow> (case mapM f xs of Inl e \<Rightarrow> Inl e | Inr ys \<Rightarrow> Inr (y # ys)))"

section \<open>Python string operations\<close>

text \<open>The characters \<^verbatim>\<open>str.split()\<close>, \<^verbatim>\<open>str.strip()\<close> and \<^verbatim>\<open>str.isspace()\<close> treat
  as white space: the ASCII ones, the next-line character and the no-break space.\<close>

definition is_space :: "char \<Rightarrow> bool" where
  "is_space c = (c \<in> set [CHR 0x09, CHR 0x0A, CHR 0x0B, CHR 0x0C, CHR 0x0D,
                           CHR 0x1C, CHR 0x1D, CHR 0x1E, CHR 0x1F, CHR 0x20,
                           CHR 0x85, CHR 0xA0])"

text \<open>The white space \<^verbatim>\<open>int()\<close> drops around a literal: it does not drop the four
  separator characters \<^verbatim>\<open>0x1C\<close> to \<^verbatim>\<open>0x1F\<close>.\<close>

definition is_int_space :: "char \<Rightarrow> bool" where
  "is_int_space c = (c \<in> set [CHR 0x09, CHR 0x0A, CHR 0x0B, CHR 0x0C, CHR 0x0D, CHR 0x20,
                               CHR 0x85, CHR 0xA0])"

text \<open>The decimal digits, which \<^verbatim>\<open>int()\<close> and the pattern \<^verbatim>\<open>\d\<close> accept, and the
  characters for which \<^verbatim>\<open>str.isdigit()\<close> holds: the decimal digits and the superscript
  digits two, three and one.\<close>

definition is_decimal :: "char \<Rightarrow> bool" where
  "is_decimal c = (c \<in> set ''0123456789'')"

definition is_digit :: "char \<Rightarrow> bool" where
  "is_digit c = (is_decimal c \<or> c \<in> set [CHR 0xB2, CHR 0xB3, CHR 0xB9])"

definition digit_val :: "char \<Rightarrow> nat" where
  "digit_val c = of_char c - 48"

text \<open>\<^verbatim>\<open>s.isdigit()\<close>\<close>

definition isdigit :: "string \<Rightarrow> bool" where
  "isdigit s = (s \<noteq> [] \<and> list_all is_digit s)"

text \<open>\<^verbatim>\<open>s.split()\<close>: the maximal runs of characters that are not white space. The first
  argument holds the characters of the run being read, last one first.\<close>

fun split_run :: "string \<Rightarrow> string \<Rightarrow> string list" where
  "split_run cur [] = (if cur = [] then [] else [rev cur])"
| "split_run cur (c # cs) =
     (if is_space c then (if cur = [] then split_run [] cs else rev cur # split_run [] cs)
      else split_run (c # cur) cs)"

definition split :: "string \<Rightarrow> string list" where
  "split s = split_run [] s"

text \<open>\<^verbatim>\<open>s.strip()\<close>\<close>

definition strip :: "string \<Rightarrow> string" where
  "strip s = rev (dropWhile is_space (rev (dropWhile is_space s)))"

text \<open>\<^verbatim>\<open>sep.join(xs)\<close> on strings.\<close>

fun join_str :: "string \<Rightarrow> string list \<Rightarrow> string" where
  "join_str sep [] = []"
| "join_str sep [x] = x"
| "join_str sep (x # y # ys) = x @ sep @ join_str sep (y # ys)"

text \<open>\<^verbatim>\<open>sep.join(xs)\<close> on a list of values: an element that is not a string raises
  \<^verbatim>\<open>TypeError\<close>.\<close>

definition the_str :: "val \<Rightarrow> string result" where
  "the_str v = (case v of Str s \<Rightarrow> Inr s | _ \<Rightarrow> Inl TypeError)"

definition join :: "string \<Rightarrow> val list \<Rightarrow> string result" where
  "join sep xs = (case mapM the_str xs of Inl e \<Rightarrow> Inl e | Inr ss \<Rightarrow> Inr (join_str sep ss))"

text \<open>\<^verbatim>\<open>s.index(sub)\<close>: the position of the first occurrence, \<^verbatim>\<open>ValueError\<close> when there
  is none.\<close>

fun find_sub :: "string \<Rightarrow> string \<Rightarrow> nat option" where
  "find_sub sub [] = (if sub = [] then Some 0 else None)"
| "find_sub sub (c # cs) =
     (if take (length sub) (c # cs) = sub then Some 0 else map_option Suc (find_sub sub cs))"

definition str_index :: "string \<Rightarrow> string \<Rightarrow> nat result" where
  "str_index s sub = (case find_sub sub s of None \<Rightarrow> Inl ValueError | Some i \<Rightarrow> Inr i)"

text \<open>The value of a string of decimal digits.\<close>

definition digits_val :: "string \<Rightarrow> nat" where
  "digits_val s = foldl (\<lambda>n c. 10 * n + digit_val c) 0 s"

text \<open>\<^verbatim>\<open>int(s)\<close> on a string: white space around the literal is dropped, one sign is
  allowed, single underscores may separate decimal digits, and a literal of more digits
  than the interpreter's limit, 4300 unless it is configured, raises \<^verbatim>\<open>ValueError\<close> as
  every other failure does.\<close>

definition int_max_str_digits :: nat where
  "int_max_str_digits = 4300"

definition int_strip :: "string \<Rightarrow> string" where
  "int_strip s = rev (dropWhile is_int_space (rev (dropWhile is_int_space s)))"

fun no_double_underscore :: "string \<Rightarrow> bool" where
  "no_double_underscore (a # b # cs) =
     (\<not> (a = CHR ''_'' \<and> b = CHR ''_'') \<and> no_double_underscore (b # cs))"
| "no_double_underscore _ = True"

definition int_literal :: "string \<Rightarrow> bool" where
  "int_literal s =
     (s \<noteq> [] \<and> is_decimal (hd s) \<and> is_decimal (last s)
      \<and> list_all (\<lambda>c. is_decimal c \<or> c = CHR ''_'') s \<and> no_double_underscore s
      \<and> length (filter is_decimal s) \<le> int_max_str_digits)"

definition int_of_string :: "string \<Rightarrow> int result" where
  "int_of_string s =
     (case int_strip s of
        [] \<Rightarrow> Inl ValueError
      | c # cs \<Rightarrow>
          if c = CHR ''-'' then
            (if int_literal cs then Inr (- int (digits_val (filter is_decimal cs)))
             else Inl ValueError)
          else if c = CHR ''+'' then
            (if int_literal cs then Inr (int (digits_val (filter is_decimal cs)))
             else Inl ValueError)
          else if int_literal (c # cs) then Inr (int (digits_val (filter is_decimal (c # cs))))
          else Inl ValueError)"

text \<open>\<^verbatim>\<open>int(v)\<close> on a field value; \<^verbatim>\<open>int(np.nan)\<close> raises \<^verbatim>\<open>ValueError\<close>.\<close>

definition py_int :: "val \<Rightarrow> int result" where
  "py_int v = (case v of Num i \<Rightarrow> Inr i | Str s \<Rightarrow> int_of_string s | Nan \<Rightarrow> Inl ValueError)"

text \<open>\<^verbatim>\<open>str(n)\<close> and \<^verbatim>\<open>bin(n)[2:]\<close> of a natural number.\<close>

definition digit_char :: "nat \<Rightarrow> char" where
  "digit_char d = char_of (48 + d)"

fun str_nat :: "nat \<Rightarrow> string" where
  "str_nat n = (if n < 10 then [digit_char n] else str_nat (n div 10) @ [digit_char (n mod 10)])"

fun bin_nat :: "nat \<Rightarrow> string" where
  "bin_nat n = (if n < 2 then [digit_char n] else bin_nat (n div 2) @ [digit_char (n mod 2)])"

text \<open>\<^verbatim>\<open>s.zfill(w)\<close> on a string without sign.\<close>

definition zfill :: "nat \<Rightarrow> string \<Rightarrow> string" where
  "zfill w s = replicate (w - length s) (CHR ''0'') @ s"

section \<open>Symbol decoder\<close>

text \<open>The negative table has thirteen entries: its last two string literals stand in the
  source without a comma between them, which Python reads as one string.\<close>

definition SYMBOL_LABELS_NEG :: "val list" where
  "SYMBOL_LABELS_NEG =
     [Str ''Leire'', Str ''Fyllemasse'', Str ''Grus'', Str ''Matjord'', Str ''Berg'',
      Str ''Sand'', Str ''Skjell'', Str ''Silt'', Str ''Stein & blokk'', Str ''Morene'',
      Str ''Torv'', Str ''Gytje, dy'', Str ''TreresterKvikkleire'']"

definition SYMBOL_LABELS_POS :: "val list" where
  "SYMBOL_LABELS_POS =
     [Nan, Str ''Leire'', Str ''Silt'', Str ''Sand'', Str ''Grus'', Str ''Stein'',
      Str ''Fyllemasse'', Str ''Matjord'', Str ''Trerester'', Str ''Skjell'',
      Str ''Kvikkleire'']"

text \<open>\<^verbatim>\<open>_label_from_symbol\<close>. A negative symbol is read bit by bit, least significant
  bit first; a positive one digit by digit, from the left.\<close>

definition label_from_symbol :: "val \<Rightarrow> val list result" where
  "label_from_symbol symbol =
     (case py_int symbol of
        Inl e \<Rightarrow> Inl e
      | Inr n \<Rightarrow>
          if n < 0 then
            (let bin_str = zfill 13 (bin_nat (nat \<bar>n\<bar>))
             in mapM (\<lambda>(pos, bit). getitem SYMBOL_LABELS_NEG (int pos))
                  (filter (\<lambda>(pos, bit). bit = CHR ''1'') (enumerate 0 (rev bin_str))))
          else if n > 0 then
            mapM (\<lambda>i. case int_of_string [i] of Inl e \<Rightarrow> Inl e
                       | Inr d \<Rightarrow> getitem SYMBOL_LABELS_POS d)
              (str_nat (nat n))
          else Inr [])"

section \<open>Mapping tables\<close>

text \<open>
  The mapping tables of the parser live in the module \<^verbatim>\<open>mappings\<close>, which the parser
  imports with \<^verbatim>\<open>from .mappings import *\<close>. A table is an ordered dictionary from a field
  name to an entry with an \<^verbatim>\<open>index\<close> and either a \<^verbatim>\<open>dtype\<close> (a callable that converts
  the text of the field and may raise) or a \<^verbatim>\<open>nested\<close> table of fields that share one
  line. The tables are parameters of the model, collected in the record \<open>mappings\<close>.
\<close>

type_synonym dtype = "string \<Rightarrow> val result"

datatype field = Field int dtype | Nested int "(string \<times> int \<times> dtype) list"

type_synonym mapping = "(string \<times> field) list"

type_synonym data_mapping = "(string \<times> int \<times> dtype) list"

record mappings =
  first_block_mapping :: mapping
  second_block_mapping :: mapping
  third_block_mapping :: mapping
  cpt_unknown_block_mapping :: mapping
  data_block_metadata_mapping :: mapping
  tlk_data_mapping :: mapping
  prv_metadata_mapping :: mapping
  tot_data_mapping :: data_mapping
  cpt_data_mapping :: data_mapping
  prv_data_mapping :: data_mapping
  geosuite_code_to_label :: "(int \<times> string) list"
  geosuite_textcode_to_code :: "(string \<times> val) list"

text \<open>Sequencing of two steps of which the first may raise.\<close>

definition then_do :: "'a result \<Rightarrow> ('a \<Rightarrow> 'b result) \<Rightarrow> 'b result" where
  "then_do r f = (case r of Inl e \<Rightarrow> Inl e | Inr x \<Rightarrow> f x)"

section \<open>Metadata block extractor and data row extractor\<close>

text \<open>The inner loop of \<^verbatim>\<open>_parse_metadata_block\<close> over the fields of one nested entry:
  \<^verbatim>\<open>IndexError\<close> and \<^verbatim>\<open>ValueError\<close> give the field the value \<^verbatim>\<open>np.nan\<close>, any other
  exception leaves the function.\<close>

fun parse_nested :: "string list \<Rightarrow> int \<Rightarrow> (string \<times> int \<times> dtype) list \<Rightarrow> dict \<Rightarrow> dict result" where
  "parse_nested block i [] block_parsed = Inr block_parsed"
| "parse_nested block i ((key2, j, dt) # rest) block_parsed =
     (case then_do (getitem block i) (\<lambda>line. then_do (getitem (split line) j) dt) of
        Inr v \<Rightarrow> parse_nested block i rest (setitem key2 v block_parsed)
      | Inl e \<Rightarrow>
          if e = IndexError \<or> e = ValueError
          then parse_nested block i rest (setitem key2 Nan block_parsed)
          else Inl e)"

text \<open>The outer loop: a field that is not nested takes a whole line, and only
  \<^verbatim>\<open>IndexError\<close> is caught for it.\<close>

fun parse_fields :: "string list \<Rightarrow> mapping \<Rightarrow> dict \<Rightarrow> dict result" where
  "parse_fields block [] block_parsed = Inr block_parsed"
| "parse_fields block ((key1, Nested i sub) # rest) block_parsed =
     then_do (parse_nested block i sub block_parsed) (parse_fields block rest)"
| "parse_fields block ((key1, Field i dt) # rest) block_parsed =
     (case then_do (getitem block i) dt of
        Inr v \<Rightarrow> parse_fields block rest (setitem key1 v block_parsed)
      | Inl e \<Rightarrow>
          if e = IndexError then parse_fields block rest (setitem key1 Nan block_parsed)
          else Inl e)"

definition parse_metadata_block :: "string list \<Rightarrow> mapping \<Rightarrow> dict result" where
  "parse_metadata_block block mapping = parse_fields block mapping []"

text \<open>\<^verbatim>\<open>_parse_data_block\<close>: one row per line; the tokenizer is called outside the
  \<^verbatim>\<open>try\<close>, so its exceptions leave the function.\<close>

fun parse_row :: "string list \<Rightarrow> data_mapping \<Rightarrow> dict \<Rightarrow> dict result" where
  "parse_row line_vals [] row = Inr row"
| "parse_row line_vals ((key, j, dt) # rest) row =
     (case then_do (getitem line_vals j) dt of
        Inr v \<Rightarrow> parse_row line_vals rest (setitem key v row)
      | Inl e \<Rightarrow>
          if e = IndexError \<or> e = ValueError then parse_row line_vals rest (setitem key Nan row)
          else Inl e)"

definition parse_data_block ::
  "string list \<Rightarrow> data_mapping \<Rightarrow> (string \<Rightarrow> string list result) \<Rightarrow> dict list result" where
  "parse_data_block block mapping line_split_func =
     mapM (\<lambda>line. then_do (line_split_func line) (\<lambda>line_vals. parse_row line_vals mapping []))
       block"

definition tot_split_func :: "string \<Rightarrow> string list result" where
  "tot_split_func line = Inr (split line)"

definition prv_split_func :: "string \<Rightarrow> string list result" where
  "prv_split_func line = Inr (split line)"

text \<open>\<^verbatim>\<open>_cpt_split_func\<close>: the first four tokens, the comment of fixed width after the
  last of them, and the tokens after the comment.\<close>

definition cpt_split_func :: "nat \<Rightarrow> string \<Rightarrow> string list result" where
  "cpt_split_func comment_char_length line =
     (let first_values = take 4 (split line)
      in then_do (getitem first_values (- 1)) (\<lambda>fourth.
         then_do (str_index line ('' '' @ fourth @ '' '')) (\<lambda>fourth_index.
           let start_index_comment = fourth_index + length fourth + 1;
               stop_index_comment = start_index_comment + comment_char_length;
               comment = drop start_index_comment (take stop_index_comment line);
               last_values = split (drop stop_index_comment line)
           in Inr (first_values @ [strip comment] @ last_values))))"

text \<open>\<^verbatim>\<open>_initialize_empty_mapping\<close>\<close>

fun initialize_empty_fields :: "mapping \<Rightarrow> dict \<Rightarrow> dict" where
  "initialize_empty_fields [] block_parsed = block_parsed"
| "initialize_empty_fields ((key1, Nested i sub) # rest) block_parsed =
     initialize_empty_fields rest (fold (\<lambda>(key2, _). setitem key2 Nan) sub block_parsed)"
| "initialize_empty_fields ((key1, Field i dt) # rest) block_parsed =
     initialize_empty_fields rest (setitem key1 Nan block_parsed)"

definition initialize_empty_mapping :: "mapping \<Rightarrow> dict" where
  "initialize_empty_mapping mapping = initialize_empty_fields mapping []"

section \<open>Block segmenter\<close>

text \<open>\<^verbatim>\<open>_split_tlk_to_blocks\<close>: the loop state is the list of finished blocks, the block
  being filled and its line count \<open>c\<close>. The asterisk line leaves the loop; the statement
  after the loop appends the block being filled.\<close>

fun split_tlk_loop ::
  "string list \<Rightarrow> string list list \<Rightarrow> string list \<Rightarrow> nat \<Rightarrow> string list list" where
  "split_tlk_loop [] blocks block c = blocks @ [block]"
| "split_tlk_loop (line # lines) blocks block c =
     (if line = ''*'' then blocks @ [block]
      else if c = 3 then split_tlk_loop lines (blocks @ [block]) [line] 1
      else split_tlk_loop lines blocks (block @ [line]) (c + 1))"

definition split_tlk_to_blocks :: "string list \<Rightarrow> string list list" where
  "split_tlk_to_blocks lines = split_tlk_loop lines [] [] 0"

text \<open>\<^verbatim>\<open>_get_blocks\<close>\<close>

fun get_blocks_loop ::
  "string list \<Rightarrow> string list list \<Rightarrow> string list \<Rightarrow> string list list \<times> string list" where
  "get_blocks_loop [] blocks current_block = (blocks, current_block)"
| "get_blocks_loop (line # lines) blocks current_block =
     (if line = ''*'' then get_blocks_loop lines (blocks @ [current_block]) []
      else get_blocks_loop lines blocks (current_block @ [line]))"

definition get_blocks :: "string list \<Rightarrow> string list list" where
  "get_blocks lines =
     (let (blocks, current_block) = get_blocks_loop lines [] [];
          blocks = (if current_block \<noteq> [] then blocks @ [current_block] else blocks)
      in filter (\<lambda>b. b \<noteq> []) blocks)"

section \<open>Date parser\<close>

text \<open>
  \<^verbatim>\<open>datetime.strptime\<close> is library code. It turns the format into a regular expression,
  matches it at the start of the text with backtracking, demands that the match covers
  the whole text, and then builds the date, which fails for a day the month does not
  have and for the year 0. The directives the parser's formats use are
  \<^verbatim>\<open>%d\<close> (\<^verbatim>\<open>3[0-1]|[1-2]\d|0[1-9]|[1-9]| [1-9]\<close>), \<^verbatim>\<open>%m\<close> (\<^verbatim>\<open>1[0-2]|0[1-9]|[1-9]\<close>),
  \<^verbatim>\<open>%Y\<close> (four digits) and \<^verbatim>\<open>%y\<close> (two digits); every failure is a \<^verbatim>\<open>ValueError\<close>.
\<close>

datatype directive = Day | Month | Year4 | Year2 | Lit char

text \<open>The directives of a format string; \<open>None\<close> for a directive outside the four
  above.\<close>

fun directives :: "string \<Rightarrow> directive list option" where
  "directives [] = Some []"
| "directives [c] = (if c = CHR ''%'' then None else Some [Lit c])"
| "directives (c # d # cs) =
     (if c = CHR ''%'' then
        (if d = CHR ''d'' then map_option ((#) Day) (directives cs)
         else if d = CHR ''m'' then map_option ((#) Month) (directives cs)
         else if d = CHR ''Y'' then map_option ((#) Year4) (directives cs)
         else if d = CHR ''y'' then map_option ((#) Year2) (directives cs)
         else None)
      else map_option ((#) (Lit c)) (directives (d # cs)))"

text \<open>One alternative of a group: two characters, or one character, each from a given
  class. The result is the list of ways to match (none or one), with the number read and
  the rest of the text.\<close>

definition two_chars :: "string \<Rightarrow> string \<Rightarrow> string \<Rightarrow> (nat \<times> string) list" where
  "two_chars p q s =
     (case s of
        a # b # r \<Rightarrow>
          if a \<in> set p \<and> b \<in> set q then [(digits_val (filter is_decimal [a, b]), r)] else []
      | _ \<Rightarrow> [])"

definition one_char :: "string \<Rightarrow> string \<Rightarrow> (nat \<times> string) list" where
  "one_char p s = (case s of a # r \<Rightarrow> if a \<in> set p then [(digit_val a, r)] else [] | _ \<Rightarrow> [])"

text \<open>The ways to match one group, in the order in which backtracking tries them.\<close>

definition match_day :: "string \<Rightarrow> (nat \<times> string) list" where
  "match_day s =
     two_chars ''3'' ''01'' s @ two_chars ''12'' ''0123456789'' s
     @ two_chars ''0'' ''123456789'' s @ one_char ''123456789'' s
     @ two_chars '' '' ''123456789'' s"

definition match_month :: "string \<Rightarrow> (nat \<times> string) list" where
  "match_month s =
     two_chars ''1'' ''012'' s @ two_chars ''0'' ''123456789'' s @ one_char ''123456789'' s"

definition match_year4 :: "string \<Rightarrow> (nat \<times> string) list" where
  "match_year4 s =
     (if length s \<ge> 4 \<and> list_all is_decimal (take 4 s) then [(digits_val (take 4 s), drop 4 s)]
      else [])"

definition match_year2 :: "string \<Rightarrow> (nat \<times> string) list" where
  "match_year2 s =
     (if length s \<ge> 2 \<and> list_all is_decimal (take 2 s)
      then [(let y = digits_val (take 2 s) in if y \<le> 68 then y + 2000 else y + 1900, drop 2 s)]
      else [])"

text \<open>All matches of a format at the start of a text, in backtracking order, each with
  the year, month and day read so far and the text left over.\<close>

fun match_format ::
  "directive list \<Rightarrow> nat \<times> nat \<times> nat \<Rightarrow> string \<Rightarrow> ((nat \<times> nat \<times> nat) \<times> string) list" where
  "match_format [] ymd s = [(ymd, s)]"
| "match_format (Lit c # ds) ymd s =
     (case s of [] \<Rightarrow> [] | x # xs \<Rightarrow> if x = c then match_format ds ymd xs else [])"
| "match_format (Day # ds) (y, m, d) s =
     concat (map (\<lambda>(v, r). match_format ds (y, m, v) r) (match_day s))"
| "match_format (Month # ds) (y, m, d) s =
     concat (map (\<lambda>(v, r). match_format ds (y, v, d) r) (match_month s))"
| "match_format (Year4 # ds) (y, m, d) s =
     concat (map (\<lambda>(v, r). match_format ds (v, m, d) r) (match_year4 s))"
| "match_format (Year2 # ds) (y, m, d) s =
     concat (map (\<lambda>(v, r). match_format ds (v, m, d) r) (match_year2 s))"

definition is_leap :: "nat \<Rightarrow> bool" where
  "is_leap y = (y mod 4 = 0 \<and> (y mod 100 \<noteq> 0 \<or> y mod 400 = 0))"

definition days_in_month :: "nat \<Rightarrow> nat \<Rightarrow> nat" where
  "days_in_month y m =
     (if m = 2 then (if is_leap y then 29 else 28)
      else if m \<in> set [4, 6, 9, 11] then 30 else 31)"

definition valid_date :: "nat \<times> nat \<times> nat \<Rightarrow> bool" where
  "valid_date ymd =
     (case ymd of (y, m, d) \<Rightarrow>
        1 \<le> y \<and> y \<le> 9999 \<and> 1 \<le> m \<and> m \<le> 12 \<and> 1 \<le> d \<and> d \<le> days_in_month y m)"

text \<open>\<^verbatim>\<open>datetime.strptime(datestr, fmt)\<close>; the fields start at 1900-01-01.\<close>

definition strptime :: "string \<Rightarrow> string \<Rightarrow> (nat \<times> nat \<times> nat) result" where
  "strptime datestr fmt =
     (case directives fmt of
        None \<Rightarrow> Inl ValueError
      | Some ds \<Rightarrow>
          (case match_format ds (1900, 1, 1) datestr of
             [] \<Rightarrow> Inl ValueError
           | (ymd, rest) # _ \<Rightarrow>
               if rest \<noteq> [] then Inl ValueError
               else if valid_date ymd then Inr ymd else Inl ValueError))"

definition DATETIME_FMTS :: "string list" where
  "DATETIME_FMTS = [''%d.%m.%Y'', ''%Y-%m-%d'', ''%Y%m0%d'', ''%d.%m.%y'', ''%Y-%d-%m'']"

text \<open>\<^verbatim>\<open>_try_parse_datetime\<close>: the first format that parses wins; a \<^verbatim>\<open>ValueError\<close> moves
  on to the next format, and the function raises one itself after the last.\<close>

fun try_formats :: "string \<Rightarrow> string list \<Rightarrow> (nat \<times> nat \<times> nat) result" where
  "try_formats datestr [] = Inl ValueError"
| "try_formats datestr (fmt # fmts) =
     (case strptime datestr fmt of
        Inr t \<Rightarrow> Inr t
      | Inl e \<Rightarrow> if e = ValueError then try_formats datestr fmts else Inl e)"

definition try_parse_datetime :: "string \<Rightarrow> (nat \<times> nat \<times> nat) result" where
  "try_parse_datetime datestr = try_formats datestr DATETIME_FMTS"

section \<open>Survey dispatcher\<close>

definition KNOWN_SURVEY_CODES :: "int list" where
  "KNOWN_SURVEY_CODES = [7, 10, 21, 22, 23, 24, 25, 26]"

text \<open>\<^verbatim>\<open>_SURVEY_CODE_TO_TEXT[code]\<close>\<close>

definition SURVEY_CODE_TO_TEXT :: "val \<Rightarrow> string result" where
  "SURVEY_CODE_TO_TEXT code =
     (if code = Num 25 then Inr ''tot'' else if code = Num 7 then Inr ''cpt'' else Inl KeyError)"

text \<open>\<^verbatim>\<open>_is_data_block\<close>. The body of the \<^verbatim>\<open>try\<close> returns \<open>True\<close>, raises, or falls
  through to the final \<^verbatim>\<open>return False\<close>; the handler catches every exception and answers
  whether the second token is all digits.\<close>

definition is_data_block :: "string list \<Rightarrow> bool result" where
  "is_data_block block =
     then_do (getitem block 0) (\<lambda>first_line.
       case split first_line of
         [survey_code, date] \<Rightarrow>
           (case (if isdigit survey_code
                  then then_do (int_of_string survey_code) (\<lambda>n.
                         if n \<in> set KNOWN_SURVEY_CODES
                         then then_do (try_parse_datetime date) (\<lambda>_. Inr True)
                         else Inr False)
                  else Inr False) of
              Inl e \<Rightarrow> Inr (isdigit date)
            | Inr b \<Rightarrow> Inr b)
       | _ \<Rightarrow> Inr False)"

text \<open>\<^verbatim>\<open>_get_data_block_survey_type\<close>, with the default key.\<close>

definition get_data_block_survey_type :: "dict \<Rightarrow> val result" where
  "get_data_block_survey_type data_block_metadata =
     (case map_of data_block_metadata ''survey_type_code'' of
        None \<Rightarrow> Inl IndexError
      | Some v \<Rightarrow> Inr v)"

text \<open>\<^verbatim>\<open>_parse_unknown_data_block\<close>\<close>

definition parse_unknown_data_block :: "mappings \<Rightarrow> string list \<Rightarrow> (dict \<times> dict list) result" where
  "parse_unknown_data_block M block =
     (let metadata_lines = take 2 block; data_lines = drop 2 block
      in then_do (parse_metadata_block metadata_lines (data_block_metadata_mapping M)) (\<lambda>metadata.
         then_do (get_data_block_survey_type metadata) (\<lambda>survey_type.
           if survey_type = Num 25 then
             then_do (parse_data_block data_lines (tot_data_mapping M) tot_split_func)
               (\<lambda>data. Inr (metadata, data))
           else if survey_type = Num 7 then
             then_do (parse_data_block data_lines (cpt_data_mapping M) (cpt_split_func 25))
               (\<lambda>data. Inr (metadata, data))
           else Inl ValueError)))"

section \<open>The unknown-material variant of an interpretation block\<close>

text \<open>\<^verbatim>\<open>_is_unknown_material\<close>\<close>

definition is_unknown_material :: "string list \<Rightarrow> bool result" where
  "is_unknown_material block =
     then_do (getitem block 0) (\<lambda>first_line.
       then_do (getitem (split first_line) (- 1)) (\<lambda>material_text_2.
         Inr (material_text_2 = ''Annet'')))"

text \<open>\<^verbatim>\<open>_add_empty_value_as_material_text_1\<close>: the text \<^verbatim>\<open>None\<close> is put directly in front of
  the first line of a copy of the block.\<close>

definition add_empty_value_as_material_text_1 :: "string list \<Rightarrow> string list result" where
  "add_empty_value_as_material_text_1 block =
     (case block of [] \<Rightarrow> Inl IndexError | l # ls \<Rightarrow> Inr ((''None'' @ l) # ls))"

section \<open>Symbol annotation of auxiliary rows\<close>

text \<open>The loop of \<^verbatim>\<open>_extract_and_add_symbol_text\<close> over one row.\<close>

definition add_symbol_text :: "dict \<Rightarrow> dict result" where
  "add_symbol_text row =
     then_do (dict_get row ''symbol'') (\<lambda>symbol.
       then_do (label_from_symbol symbol) (\<lambda>soiltypes.
         then_do (join '' '' soiltypes) (\<lambda>s.
           Inr (setitem ''symbol_soiltype'' (Str s) row))))"

text \<open>\<^verbatim>\<open>_extract_and_add_symbol_text\<close>. The test for an empty label stands after the loop,
  so it reads the loop variable \<^verbatim>\<open>row\<close>, which is the last row, and which is unbound
  when there was no row.\<close>

definition extract_and_add_symbol_text :: "dict list \<Rightarrow> dict list result" where
  "extract_and_add_symbol_text data =
     then_do (mapM add_symbol_text data) (\<lambda>temp_data.
       if temp_data = [] then Inl UnboundLocalError
       else
         then_do (dict_get (last temp_data) ''symbol_soiltype'') (\<lambda>label.
           if label = Str []
           then Inr (butlast temp_data @ [setitem ''symbol_soiltype'' Nan (last temp_data)])
           else Inr temp_data))"

section \<open>Comment-code indicator converter\<close>

text \<open>The dictionary \<^verbatim>\<open>indicators\<close> has five fixed keys; four hold \<^verbatim>\<open>np.nan\<close>, 0 or 1, the
  fifth the list of label codes met so far.\<close>

record indicators =
  okt_rotasjon :: val
  spyling :: val
  slag :: val
  pumping :: val
  comment_label :: "int list"

text \<open>\<^verbatim>\<open>_modify_indicator_by_code\<close>: the first parameter is the table
  \<^verbatim>\<open>geosuite_code_to_label\<close>. Each flag is assigned, never combined with its old value.\<close>

definition modify_indicator_by_code ::
  "(int \<times> string) list \<Rightarrow> int \<Rightarrow> indicators \<Rightarrow> indicators" where
  "modify_indicator_by_code code_to_label code ind =
     (if code \<in> set (map fst code_to_label)
        then ind\<lparr>comment_label := comment_label ind @ [code]\<rparr>
      else if code = 70 then ind\<lparr>okt_rotasjon := Num 1\<rparr>
      else if code = 71 then ind\<lparr>okt_rotasjon := Num 0\<rparr>
      else if code = 72 then ind\<lparr>spyling := Num 1\<rparr>
      else if code = 73 then ind\<lparr>spyling := Num 0\<rparr>
      else if code = 74 then ind\<lparr>slag := Num 1\<rparr>
      else if code = 75 then ind\<lparr>slag := Num 0\<rparr>
      else if code = 76 then ind\<lparr>slag := Num 1, spyling := Num 1\<rparr>
      else if code = 77 then ind\<lparr>slag := Num 0, spyling := Num 0\<rparr>
      else if code = 78 then ind\<lparr>pumping := Num 1\<rparr>
      else if code = 79 then ind\<lparr>pumping := Num 0\<rparr>
      else ind)"

text \<open>\<^verbatim>\<open>_merge_comments_to_single_label\<close>: the highest code of a list that is not empty.\<close>

definition merge_comments_to_single_label :: "int list \<Rightarrow> int" where
  "merge_comments_to_single_label labels = foldl max (hd labels) (tl labels)"

text \<open>The body of the loop over the tokens of one comment: a text code is replaced by its
  entry in \<^verbatim>\<open>geosuite_textcode_to_code\<close>, and a value of that table is applied.\<close>

definition apply_comment_code :: "mappings \<Rightarrow> string \<Rightarrow> indicators \<Rightarrow> indicators result" where
  "apply_comment_code M token ind =
     (let code = (case map_of (geosuite_textcode_to_code M) token of
                    Some c \<Rightarrow> c
                  | None \<Rightarrow> Str token)
      in if code \<in> set (map snd (geosuite_textcode_to_code M))
         then then_do (py_int code) (\<lambda>n.
                Inr (modify_indicator_by_code (geosuite_code_to_label M) n ind))
         else Inr ind)"

fun apply_comment_codes :: "mappings \<Rightarrow> string list \<Rightarrow> indicators \<Rightarrow> indicators result" where
  "apply_comment_codes M [] ind = Inr ind"
| "apply_comment_codes M (token # tokens) ind =
     then_do (apply_comment_code M token ind) (apply_comment_codes M tokens)"

definition initial_indicators :: indicators where
  "initial_indicators =
     \<lparr>okt_rotasjon = Nan, spyling = Nan, slag = Nan, pumping = Nan, comment_label = []\<rparr>"

text \<open>The indicators of one row, before the labels are merged.\<close>

definition row_indicators :: "mappings \<Rightarrow> dict \<Rightarrow> indicators result" where
  "row_indicators M row =
     then_do (dict_get row ''kommentar'') (\<lambda>comments.
       case comments of
         Str s \<Rightarrow> apply_comment_codes M (split s) initial_indicators
       | _ \<Rightarrow> Inr initial_indicators)"

text \<open>The dictionary of indicators as it is merged into the row.\<close>

definition indicators_dict :: "indicators \<Rightarrow> dict" where
  "indicators_dict ind =
     [(''okt_rotasjon'', okt_rotasjon ind), (''spyling'', spyling ind), (''slag'', slag ind),
      (''pumping'', pumping ind),
      (''comment_label'',
         if comment_label ind \<noteq> [] then Num (merge_comments_to_single_label (comment_label ind))
         else Nan)]"

definition convert_row :: "mappings \<Rightarrow> dict \<Rightarrow> dict result" where
  "convert_row M row =
     then_do (row_indicators M row) (\<lambda>ind. Inr (dict_merge row (indicators_dict ind)))"

text \<open>\<^verbatim>\<open>_convert_comment_codes_to_indicator_columns\<close>\<close>

definition convert_comment_codes_to_indicator_columns ::
  "mappings \<Rightarrow> dict list \<Rightarrow> dict list result" where
  "convert_comment_codes_to_indicator_columns M parsed_snd_block =
     mapM (convert_row M) parsed_snd_block"

section \<open>Format orchestrators\<close>

text \<open>An entry of an error list is a message the parser writes itself or the text
  \<^verbatim>\<open>str(e)\<close> of a caught exception.\<close>

datatype err = Msg string | Str_of exn

text \<open>The result dictionaries have a fixed shape: the type tag, the metadata fields, the
  data and the error list.\<close>

record tlk_result =
  tlk_data :: "dict list"
  tlk_errors :: "err list"

record prv_result =
  prv_metadata :: dict
  prv_data :: "dict list"
  prv_errors :: "err list"

record data_block =
  db_metadata :: dict
  db_data :: "dict list"

record snd_result =
  snd_metadata :: dict
  snd_blocks :: "data_block list"
  snd_errors :: "err list"

text \<open>The body of the \<^verbatim>\<open>try\<close> in the loop of \<^verbatim>\<open>parse_tlk_file\<close>.\<close>

definition parse_tlk_block :: "mappings \<Rightarrow> string list \<Rightarrow> dict result" where
  "parse_tlk_block M block =
     then_do (is_unknown_material block) (\<lambda>unknown.
       then_do (if unknown then add_empty_value_as_material_text_1 block else Inr block)
         (\<lambda>block. parse_metadata_block block (tlk_data_mapping M)))"

fun parse_tlk_blocks ::
  "mappings \<Rightarrow> string list list \<Rightarrow> dict list \<Rightarrow> err list \<Rightarrow> dict list \<times> err list" where
  "parse_tlk_blocks M [] rows errors = (rows, errors)"
| "parse_tlk_blocks M (block # blocks) rows errors =
     (case parse_tlk_block M block of
        Inr row \<Rightarrow> parse_tlk_blocks M blocks (rows @ [row]) errors
      | Inl e \<Rightarrow> parse_tlk_blocks M blocks rows (errors @ [Str_of e]))"

text \<open>\<^verbatim>\<open>parse_tlk_file\<close>: every exception of the loop body is caught, so the function
  always returns.\<close>

definition parse_tlk_file :: "mappings \<Rightarrow> string list \<Rightarrow> tlk_result" where
  "parse_tlk_file M lines =
     (if lines = [] then
        \<lparr>tlk_data = [], tlk_errors = [Msg ''No lines found. Could not parse file'']\<rparr>
      else
        (let (rows, errors) = parse_tlk_blocks M (split_tlk_to_blocks lines) [] []
         in \<lparr>tlk_data = rows, tlk_errors = errors\<rparr>))"

text \<open>What the body of the \<^verbatim>\<open>try\<close> in the loop of \<^verbatim>\<open>parse_snd_file\<close> does to the list
  of data blocks.\<close>

datatype outcome = Append_and_break data_block | Append data_block | Nothing

text \<open>The trailing metadata of a CPT block: the block after it, or the empty mapping when
  an \<^verbatim>\<open>IndexError\<close> is raised.\<close>

definition cpt_trailing_metadata :: "mappings \<Rightarrow> string list list \<Rightarrow> int \<Rightarrow> dict result" where
  "cpt_trailing_metadata M blocks i =
     (case then_do (getitem blocks i)
             (\<lambda>b. parse_metadata_block b (cpt_unknown_block_mapping M)) of
        Inr m \<Rightarrow> Inr m
      | Inl e \<Rightarrow>
          if e = IndexError then Inr (initialize_empty_mapping (cpt_unknown_block_mapping M))
          else Inl e)"

text \<open>The body of the \<^verbatim>\<open>try\<close>, for the block at position \<open>i\<close> of \<open>blocks\<close>.\<close>

definition scan_data_block ::
  "mappings \<Rightarrow> string list list \<Rightarrow> int \<Rightarrow> string list \<Rightarrow> outcome result" where
  "scan_data_block M blocks i block =
     then_do (parse_unknown_data_block M block) (\<lambda>(metadata, data).
       then_do (dict_get metadata ''survey_type_code'') (\<lambda>survey_type.
         then_do (SURVEY_CODE_TO_TEXT survey_type) (\<lambda>text.
           let metadata = setitem ''type'' (Str text) metadata in
           if survey_type = Num 7 then
             then_do (cpt_trailing_metadata M blocks (i + 1)) (\<lambda>cpt_unknown_metadata.
               Inr (Append_and_break
                 \<lparr>db_metadata = dict_merge metadata cpt_unknown_metadata, db_data = data\<rparr>))
           else if survey_type = Num 25 then
             then_do (convert_comment_codes_to_indicator_columns M data) (\<lambda>data.
               Inr (Append \<lparr>db_metadata = metadata, db_data = data\<rparr>))
           else Inr Nothing)))"

text \<open>The loop over \<^verbatim>\<open>enumerate(blocks[block_index:])\<close>; \<open>i\<close> is the position of the first
  block of \<open>rest\<close> in \<open>blocks\<close>, that is \<^verbatim>\<open>block_index + current_block_index\<close>. Only
  \<^verbatim>\<open>ValueError\<close> is caught.\<close>

fun scan_blocks ::
  "mappings \<Rightarrow> string list list \<Rightarrow> int \<Rightarrow> string list list \<Rightarrow> data_block list \<Rightarrow> err list
     \<Rightarrow> (data_block list \<times> err list) result" where
  "scan_blocks M blocks i [] data_blocks errors = Inr (data_blocks, errors)"
| "scan_blocks M blocks i (block # rest) data_blocks errors =
     (case is_data_block block of
        Inl e \<Rightarrow> Inl e
      | Inr False \<Rightarrow> scan_blocks M blocks (i + 1) rest data_blocks errors
      | Inr True \<Rightarrow>
          (case scan_data_block M blocks i block of
             Inr (Append_and_break entry) \<Rightarrow> Inr (data_blocks @ [entry], errors)
           | Inr (Append entry) \<Rightarrow> scan_blocks M blocks (i + 1) rest (data_blocks @ [entry]) errors
           | Inr Nothing \<Rightarrow> scan_blocks M blocks (i + 1) rest data_blocks errors
           | Inl e \<Rightarrow>
               if e = ValueError
               then scan_blocks M blocks (i + 1) rest data_blocks (errors @ [Str_of e])
               else Inl e))"

text \<open>\<^verbatim>\<open>str(i)\<close> of an integer, for the message about \<^verbatim>\<open>min_blocks\<close>.\<close>

definition str_int :: "int \<Rightarrow> string" where
  "str_int i = (if i < 0 then ''-'' @ str_nat (nat (- i)) else str_nat (nat i))"

text \<open>The body of \<^verbatim>\<open>parse_snd_file\<close> after the segmentation, as a function of the
  blocks.\<close>

definition parse_snd_blocks ::
  "mappings \<Rightarrow> string list list \<Rightarrow> int \<Rightarrow> snd_result result" where
  "parse_snd_blocks M blocks min_blocks =
     (let metadata = dict_merge
            (dict_merge (initialize_empty_mapping (first_block_mapping M))
               (initialize_empty_mapping (second_block_mapping M)))
            (initialize_empty_mapping (third_block_mapping M))
      in
      if int (length blocks) < min_blocks then
        Inr \<lparr>snd_metadata = metadata, snd_blocks = [],
             snd_errors = [Msg (''File contains less than '' @ str_int min_blocks
                                  @ '' blocks. Cannot parse'')]\<rparr>
      else
        then_do (getitem blocks 0) (\<lambda>b0.
        then_do (parse_metadata_block b0 (first_block_mapping M)) (\<lambda>first_block.
          case then_do (getitem blocks 1)
                 (\<lambda>b1. parse_metadata_block b1 (second_block_mapping M)) of
            Inl e \<Rightarrow>
              if e = ValueError then
                Inr \<lparr>snd_metadata = metadata, snd_blocks = [],
                     snd_errors =
                       [Msg ''File doesnt contain second metadatablock. Cannot parse'']\<rparr>
              else Inl e
          | Inr second_block \<Rightarrow>
              then_do (getitem blocks 2) (\<lambda>b2.
              then_do (is_data_block b2) (\<lambda>is_data.
              then_do (if \<not> is_data then parse_metadata_block b2 (third_block_mapping M)
                       else Inr (initialize_empty_mapping (third_block_mapping M)))
                (\<lambda>third_block.
                  let block_index = (if \<not> is_data then 3 else 2);
                      snd_metadata = dict_merge (dict_merge first_block second_block) third_block
                  in then_do (scan_blocks M blocks (int block_index) (drop block_index blocks) [] [])
                       (\<lambda>(data_blocks, errors).
                          Inr \<lparr>snd_metadata = snd_metadata, snd_blocks = data_blocks,
                               snd_errors = errors\<rparr>)))))))"

text \<open>\<^verbatim>\<open>parse_snd_file\<close>\<close>

definition parse_snd_file :: "mappings \<Rightarrow> string list \<Rightarrow> int \<Rightarrow> snd_result result" where
  "parse_snd_file M lines min_blocks = parse_snd_blocks M (get_blocks lines) min_blocks"

text \<open>The body of \<^verbatim>\<open>parse_prv_file\<close> after the segmentation: the first block is read
  before the number of blocks is tested.\<close>

definition parse_prv_blocks :: "mappings \<Rightarrow> string list list \<Rightarrow> prv_result result" where
  "parse_prv_blocks M blocks =
     (then_do (getitem blocks 0) (\<lambda>b0.
         then_do (parse_metadata_block b0 (prv_metadata_mapping M)) (\<lambda>metadata.
           if length blocks < 2 then
             Inr \<lparr>prv_metadata = metadata, prv_data = [],
                  prv_errors = [Msg ''PRV contains less than 2 blocks. Cannot parse'']\<rparr>
           else
             (case then_do (getitem blocks 1) (\<lambda>b1.
                     then_do (parse_data_block b1 (prv_data_mapping M) prv_split_func)
                       extract_and_add_symbol_text) of
                Inr data \<Rightarrow> Inr \<lparr>prv_metadata = metadata, prv_data = data, prv_errors = []\<rparr>
              | Inl e \<Rightarrow>
                  if e = ValueError
                  then Inr \<lparr>prv_metadata = metadata, prv_data = [], prv_errors = []\<rparr>
                  else Inl e))))"

text \<open>\<^verbatim>\<open>parse_prv_file\<close>\<close>

definition parse_prv_file :: "mappings \<Rightarrow> string list \<Rightarrow> prv_result result" where
  "parse_prv_file M lines = parse_prv_blocks M (get_blocks lines)"

section \<open>Built-in conversions and a small set of tables\<close>

text \<open>The built-in callables \<^verbatim>\<open>str\<close> and \<^verbatim>\<open>int\<close> used as \<^verbatim>\<open>dtype\<close>.\<close>

definition dtype_str :: dtype where
  "dtype_str s = Inr (Str s)"

definition dtype_int :: dtype where
  "dtype_int s = then_do (int_of_string s) (\<lambda>n. Inr (Num n))"

text \<open>Tables for concrete runs of the parser: a data block names its survey type in the
  first token of its first line, an auxiliary row its symbol in its first token.\<close>

definition example_mappings :: mappings where
  "example_mappings =
     \<lparr>first_block_mapping = [(''x'', Field 0 dtype_str)],
      second_block_mapping = [(''y'', Field 0 dtype_str)],
      third_block_mapping = [(''guid'', Field 0 dtype_str)],
      cpt_unknown_block_mapping = [(''u'', Field 0 dtype_str)],
      data_block_metadata_mapping =
        [(''line1'', Nested 0 [(''survey_type_code'', 0, dtype_int), (''date'', 1, dtype_str)])],
      tlk_data_mapping =
        [(''line1'', Nested 0 [(''depth'', 0, dtype_str), (''material'', 1, dtype_str)])],
      prv_metadata_mapping = [(''name'', Field 0 dtype_str)],
      tot_data_mapping = [(''dybde'', 0, dtype_int), (''kommentar'', 1, dtype_str)],
      cpt_data_mapping = [(''dybde'', 0, dtype_int)],
      prv_data_mapping = [(''symbol'', 0, dtype_int)],
      geosuite_code_to_label = [(41, ''label'')],
      geosuite_textcode_to_code = [(''R1'', Num 70), (''R2'', Num 71), (''S1'', Num 41)]\<rparr>"

section \<open>Vocabulary for the indicator flags\<close>

text \<open>The four flags of the converter, the key and the field of each, and the codes that
  switch each flag on and off in \<^verbatim>\<open>_modify_indicator_by_code\<close>: 70/71 for the rotation,
  72/73 for the flushing, 74/75 for the percussion, 76/77 for percussion and flushing
  together, 78/79 for the pumping.\<close>

datatype flag = Okt_rotasjon | Spyling | Slag | Pumping

definition flag_key :: "flag \<Rightarrow> string" where
  "flag_key f =
     (case f of Okt_rotasjon \<Rightarrow> ''okt_rotasjon'' | Spyling \<Rightarrow> ''spyling''
      | Slag \<Rightarrow> ''slag'' | Pumping \<Rightarrow> ''pumping'')"

definition flag_value :: "flag \<Rightarrow> indicators \<Rightarrow> val" where
  "flag_value f ind =
     (case f of Okt_rotasjon \<Rightarrow> okt_rotasjon ind | Spyling \<Rightarrow> spyling ind
      | Slag \<Rightarrow> slag ind | Pumping \<Rightarrow> pumping ind)"

definition on_codes :: "flag \<Rightarrow> int list" where
  "on_codes f =
     (case f of Okt_rotasjon \<Rightarrow> [70] | Spyling \<Rightarrow> [72, 76] | Slag \<Rightarrow> [74, 76]
      | Pumping \<Rightarrow> [78])"

definition off_codes :: "flag \<Rightarrow> int list" where
  "off_codes f =
     (case f of Okt_rotasjon \<Rightarrow> [71] | Spyling \<Rightarrow> [73, 77] | Slag \<Rightarrow> [75, 77]
      | Pumping \<Rightarrow> [79])"

text \<open>The code a comment token stands for: its entry in the table of text codes, or the
  token itself.\<close>

definition token_code :: "mappings \<Rightarrow> string \<Rightarrow> val" where
  "token_code M token =
     (case map_of (geosuite_textcode_to_code M) token of Some c \<Rightarrow> c | None \<Rightarrow> Str token)"

text \<open>A token switches with one of the given codes when its code is a value of the table
  of text codes, is not a label code, and is one of the codes.\<close>

definition switches_with :: "mappings \<Rightarrow> int list \<Rightarrow> string \<Rightarrow> bool" where
  "switches_with M codes token =
     (token_code M token \<in> set (map snd (geosuite_textcode_to_code M))
      \<and> (case py_int (token_code M token) of
           Inl e \<Rightarrow> False
         | Inr n \<Rightarrow> n \<notin> set (map fst (geosuite_code_to_label M)) \<and> n \<in> set codes))"

text \<open>Every value of the table of text codes is a number or the text of one, so that
  \<^verbatim>\<open>int(code)\<close> does not raise.\<close>

definition numeric_codes :: "mappings \<Rightarrow> bool" where
  "numeric_codes M =
     list_all (\<lambda>v. case py_int v of Inl e \<Rightarrow> False | Inr n \<Rightarrow> True)
       (map snd (geosuite_textcode_to_code M))"

text \<open>A row has a comment field when \<^verbatim>\<open>row["kommentar"]\<close> does not raise.\<close>

definition has_comment :: "dict \<Rightarrow> bool" where
  "has_comment row = (case dict_get row ''kommentar'' of Inl e \<Rightarrow> False | Inr v \<Rightarrow> True)"

section \<open>Vocabulary for the fields of a metadata block\<close>

text \<open>The conversion the extractor attempts for a field that takes a whole line, and for
  one field of a nested entry.\<close>

definition plain_attempt :: "string list \<Rightarrow> int \<Rightarrow> dtype \<Rightarrow> val result" where
  "plain_attempt block i dt = then_do (getitem block i) dt"

definition nested_attempt :: "string list \<Rightarrow> int \<Rightarrow> int \<Rightarrow> dtype \<Rightarrow> val result" where
  "nested_attempt block i j dt =
     then_do (getitem block i) (\<lambda>line. then_do (getitem (split line) j) dt)"

definition value_or_nan :: "val result \<Rightarrow> val" where
  "value_or_nan r = (case r of Inr v \<Rightarrow> v | Inl e \<Rightarrow> Nan)"

text \<open>The keys and values one entry of a mapping table contributes to the record, as a
  function of that entry and the block alone.\<close>

definition nested_item :: "string list \<Rightarrow> int \<Rightarrow> string \<times> int \<times> dtype \<Rightarrow> string \<times> val" where
  "nested_item block i = (\<lambda>(key2, j, dt). (key2, value_or_nan (nested_attempt block i j dt)))"

fun field_items :: "string list \<Rightarrow> string \<times> field \<Rightarrow> (string \<times> val) list" where
  "field_items block (key1, Field i dt) = [(key1, value_or_nan (plain_attempt block i dt))]"
| "field_items block (key1, Nested i sub) = map (nested_item block i) sub"

text \<open>An entry aborts the extraction when a conversion raises an exception that the
  handler of its branch does not name: anything but \<^verbatim>\<open>IndexError\<close> for a whole-line field,
  anything but \<^verbatim>\<open>IndexError\<close> and \<^verbatim>\<open>ValueError\<close> for a nested field.\<close>

definition nested_aborts :: "string list \<Rightarrow> int \<Rightarrow> string \<times> int \<times> dtype \<Rightarrow> bool" where
  "nested_aborts block i =
     (\<lambda>(key2, j, dt). case nested_attempt block i j dt of
                        Inl e \<Rightarrow> e \<noteq> IndexError \<and> e \<noteq> ValueError
                      | Inr v \<Rightarrow> False)"

fun field_aborts :: "string list \<Rightarrow> string \<times> field \<Rightarrow> bool" where
  "field_aborts block (key1, Field i dt) =
     (case plain_attempt block i dt of Inl e \<Rightarrow> e \<noteq> IndexError | Inr v \<Rightarrow> False)"
| "field_aborts block (key1, Nested i sub) = list_ex (nested_aborts block i) sub"

section \<open>Vocabulary for the blocks of a sound file\<close>

text \<open>A CPT data block: the dispatcher classifies the block as data, its decoding
  returns, and the survey type in its metadata is 7.\<close>

definition is_cpt_data_block :: "mappings \<Rightarrow> string list \<Rightarrow> bool" where
  "is_cpt_data_block M block =
     (is_data_block block = Inr True
      \<and> (case parse_unknown_data_block M block of
           Inl e \<Rightarrow> False
         | Inr (metadata, data) \<Rightarrow> dict_get metadata ''survey_type_code'' = Inr (Num 7)))"

text \<open>The trailing metadata of a CPT block, read from the blocks that follow it: the
  first of them is parsed, and sentinels fill the fields when there is none.\<close>

definition trailing_metadata_of :: "mappings \<Rightarrow> string list list \<Rightarrow> dict result" where
  "trailing_metadata_of M following =
     (case following of
        [] \<Rightarrow> Inr (initialize_empty_mapping (cpt_unknown_block_mapping M))
      | b # _ \<Rightarrow>
          (case parse_metadata_block b (cpt_unknown_block_mapping M) of
             Inr m \<Rightarrow> Inr m
           | Inl e \<Rightarrow>
               if e = IndexError
               then Inr (initialize_empty_mapping (cpt_unknown_block_mapping M))
               else Inl e))"

text \<open>A sound file for concrete runs: three metadata blocks, a total sounding, a CPT
  block, its trailing metadata and one more total sounding.\<close>

definition example_snd_lines :: "string list" where
  "example_snd_lines =
     [''head'', ''*'', ''second'', ''*'', ''guid-1'', ''*'',
      ''25 01.02.2020'', ''meta'', ''1 R1'', ''*'',
      ''7 01.02.2020'', ''meta'', ''1 2 3 4 comment'', ''*'',
      ''trailer'', ''*'',
      ''25 03.02.2020'', ''meta'', ''5 R2'', ''*'']"

section \<open>An explicit store for the lists of lines\<close>

text \<open>
  The functions above pass lists as values. To state what a call does to the list
  object of its caller, the segmenters and the orchestrators are given a second form that
  works on a store of list objects. An address is a position in the store. A list object
  holds strings, which Python cannot change, and references to other list objects. The
  store holds the lists that can share structure with the input: the input list, the
  lists of blocks and the blocks. Every assignment and every \<^verbatim>\<open>append\<close> of the source on
  such a list is an update of the store at the address of that list; a list display, a
  list comprehension and \<^verbatim>\<open>copy\<close> allocate a new object at the end of the store.

  A \<^verbatim>\<open>for\<close> loop runs over the items its list has when the loop starts.
\<close>

datatype item = Line string | Ref nat

type_synonym heap = "item list list"

fun item_lines :: "item list \<Rightarrow> string list" where
  "item_lines [] = []"
| "item_lines (Line s # xs) = s # item_lines xs"
| "item_lines (Ref r # xs) = item_lines xs"

fun item_refs :: "item list \<Rightarrow> nat list" where
  "item_refs [] = []"
| "item_refs (Line s # xs) = item_refs xs"
| "item_refs (Ref r # xs) = r # item_refs xs"

text \<open>The blocks a list of blocks at an address stands for.\<close>

definition blocks_at :: "heap \<Rightarrow> nat \<Rightarrow> string list list" where
  "blocks_at h a = map (\<lambda>r. item_lines (h ! r)) (item_refs (h ! a))"

text \<open>\<^verbatim>\<open>xs.append(x)\<close> for the list at address \<open>a\<close>.\<close>

definition append_item :: "heap \<Rightarrow> nat \<Rightarrow> item \<Rightarrow> heap" where
  "append_item h a x = h[a := h ! a @ [x]]"

text \<open>The truth value of an item: a string or a list that is not empty.\<close>

definition truthy :: "heap \<Rightarrow> item \<Rightarrow> bool" where
  "truthy h x = (case x of Line s \<Rightarrow> s \<noteq> [] | Ref r \<Rightarrow> h ! r \<noteq> [])"

text \<open>The loop of \<^verbatim>\<open>_get_blocks\<close> on the store: \<open>blocks\<close> and \<open>current_block\<close> are
  addresses, and \<^verbatim>\<open>current_block = []\<close> allocates.\<close>

fun get_blocks_loop_st :: "item list \<Rightarrow> nat \<Rightarrow> nat \<Rightarrow> heap \<Rightarrow> nat \<times> heap" where
  "get_blocks_loop_st [] blocks current_block h = (current_block, h)"
| "get_blocks_loop_st (line # lines) blocks current_block h =
     (if line = Line ''*''
      then get_blocks_loop_st lines blocks (length h)
             (append_item h blocks (Ref current_block) @ [[]])
      else get_blocks_loop_st lines blocks current_block (append_item h current_block line))"

text \<open>\<^verbatim>\<open>_get_blocks\<close> on the store: the address of the input list goes in, the address of
  the new list of blocks comes out.\<close>

definition get_blocks_st :: "nat \<Rightarrow> heap \<Rightarrow> nat \<times> heap" where
  "get_blocks_st lines h =
     (let blocks = length h;
          h1 = h @ [[], []];
          (current_block, h2) = get_blocks_loop_st (h1 ! lines) blocks (length h + 1) h1;
          h3 = (if h2 ! current_block \<noteq> [] then append_item h2 blocks (Ref current_block)
                else h2)
      in (length h3, h3 @ [filter (truthy h3) (h3 ! blocks)]))"

text \<open>The loop of \<^verbatim>\<open>_split_tlk_to_blocks\<close> on the store.\<close>

fun split_tlk_loop_st :: "item list \<Rightarrow> nat \<Rightarrow> nat \<Rightarrow> nat \<Rightarrow> heap \<Rightarrow> nat \<times> heap" where
  "split_tlk_loop_st [] blocks block c h = (block, h)"
| "split_tlk_loop_st (line # lines) blocks block c h =
     (if line = Line ''*'' then (block, h)
      else if c = 3
      then split_tlk_loop_st lines blocks (length h) 1
             (append_item (append_item h blocks (Ref block) @ [[]]) (length h) line)
      else split_tlk_loop_st lines blocks block (c + 1) (append_item h block line))"

text \<open>\<^verbatim>\<open>_split_tlk_to_blocks\<close> on the store.\<close>

definition split_tlk_to_blocks_st :: "nat \<Rightarrow> heap \<Rightarrow> nat \<times> heap" where
  "split_tlk_to_blocks_st lines h =
     (let blocks = length h;
          h1 = h @ [[], []];
          (block, h2) = split_tlk_loop_st (h1 ! lines) blocks (length h + 1) 0 h1
      in (blocks, append_item h2 blocks (Ref block)))"

text \<open>\<^verbatim>\<open>_add_empty_value_as_material_text_1\<close> on the store: \<^verbatim>\<open>block.copy()\<close> allocates the
  list that the assignment then changes.\<close>

definition add_empty_value_as_material_text_1_st :: "nat \<Rightarrow> heap \<Rightarrow> nat result \<times> heap" where
  "add_empty_value_as_material_text_1_st block h =
     (let temp_block = length h; h1 = h @ [h ! block]
      in case h1 ! temp_block of
           [] \<Rightarrow> (Inl IndexError, h1)
         | Line l # ls \<Rightarrow> (Inr temp_block, h1[temp_block := Line (''None'' @ l) # ls])
         | Ref r # ls \<Rightarrow> (Inl TypeError, h1))"

text \<open>The body of the \<^verbatim>\<open>try\<close> in the loop of \<^verbatim>\<open>parse_tlk_file\<close>, for the block at an
  address.\<close>

definition parse_tlk_block_st :: "mappings \<Rightarrow> nat \<Rightarrow> heap \<Rightarrow> dict result \<times> heap" where
  "parse_tlk_block_st M block h =
     (case is_unknown_material (item_lines (h ! block)) of
        Inl e \<Rightarrow> (Inl e, h)
      | Inr unknown \<Rightarrow>
          if unknown then
            (case add_empty_value_as_material_text_1_st block h of
               (Inl e, h1) \<Rightarrow> (Inl e, h1)
             | (Inr temp_block, h1) \<Rightarrow>
                 (parse_metadata_block (item_lines (h1 ! temp_block)) (tlk_data_mapping M), h1))
          else (parse_metadata_block (item_lines (h ! block)) (tlk_data_mapping M), h))"

fun parse_tlk_blocks_st ::
  "mappings \<Rightarrow> nat list \<Rightarrow> dict list \<Rightarrow> err list \<Rightarrow> heap \<Rightarrow> (dict list \<times> err list) \<times> heap" where
  "parse_tlk_blocks_st M [] rows errors h = ((rows, errors), h)"
| "parse_tlk_blocks_st M (block # blocks) rows errors h =
     (case parse_tlk_block_st M block h of
        (Inr row, h1) \<Rightarrow> parse_tlk_blocks_st M blocks (rows @ [row]) errors h1
      | (Inl e, h1) \<Rightarrow> parse_tlk_blocks_st M blocks rows (errors @ [Str_of e]) h1)"

text \<open>The three entry points on the store: the address of the caller's list goes in, the
  result and the store after the call come out. After the segmentation the sound-file and
  the auxiliary-file orchestrator only read the blocks.\<close>

definition parse_tlk_file_st :: "mappings \<Rightarrow> nat \<Rightarrow> heap \<Rightarrow> tlk_result \<times> heap" where
  "parse_tlk_file_st M lines h =
     (if h ! lines = [] then
        (\<lparr>tlk_data = [], tlk_errors = [Msg ''No lines found. Could not parse file'']\<rparr>, h)
      else
        (let (blocks, h1) = split_tlk_to_blocks_st lines h;
             ((rows, errors), h2) = parse_tlk_blocks_st M (item_refs (h1 ! blocks)) [] [] h1
         in (\<lparr>tlk_data = rows, tlk_errors = errors\<rparr>, h2)))"

definition parse_snd_file_st ::
  "mappings \<Rightarrow> nat \<Rightarrow> int \<Rightarrow> heap \<Rightarrow> snd_result result \<times> heap" where
  "parse_snd_file_st M lines min_blocks h =
     (let (blocks, h1) = get_blocks_st lines h
      in (parse_snd_blocks M (blocks_at h1 blocks) min_blocks, h1))"

definition parse_prv_file_st :: "mappings \<Rightarrow> nat \<Rightarrow> heap \<Rightarrow> prv_result result \<times> heap" where
  "parse_prv_file_st M lines h =
     (let (blocks, h1) = get_blocks_st lines h
      in (parse_prv_blocks M (blocks_at h1 blocks), h1))"

text \<open>A store for concrete runs: the caller's list at address 0 and another list of the
  caller at address 1.\<close>

definition example_heap :: heap where
  "example_heap =
     [[Line ''1.0 clay'', Line ''b'', Line ''c'', Line '' 2.0 Annet'', Line ''*'', Line ''e''],
      [Line ''other'']]"

text \<open>What an address of the store holds: a list of strings, and, for the loops of the
  segmenters, the list of finished blocks at \<open>blocks\<close> and the block being filled at
  \<open>cur\<close>, each a list object of its own.\<close>

definition holds_lines :: "heap \<Rightarrow> nat \<Rightarrow> string list \<Rightarrow> bool" where
  "holds_lines h a ls = (a < length h \<and> h ! a = map Line ls)"

definition segmenting ::
  "heap \<Rightarrow> nat \<Rightarrow> nat \<Rightarrow> nat list \<Rightarrow> string list list \<Rightarrow> string list \<Rightarrow> bool" where
  "segmenting h blocks cur rs bs c =
     (blocks < length h \<and> h ! blocks = map Ref rs \<and> list_all2 (holds_lines h) rs bs
      \<and> holds_lines h cur c \<and> cur \<noteq> blocks \<and> blocks \<notin> set rs \<and> cur \<notin> set rs)"

section \<open>Basic facts\<close>

lemma then_do_Inr [simp]: "then_do (Inr x) f = f x"
  by (simp add: then_do_def)

lemma then_do_Inl [simp]: "then_do (Inl e) f = Inl e"
  by (simp add: then_do_def)

lemma map_of_setitem: "map_of (setitem k v d) = (map_of d)(k \<mapsto> v)"
  by (induction d) auto

section \<open>Properties of the symbol decoder\<close>

text \<open>
  Claim C7. The symbol \<open>-5\<close> (binary 101) decodes to the labels at positions 0 and 2 of
  the negative table, which has thirteen entries, lowest bit first, and joining them with
  a space gives one string; the symbol 23 decodes to the labels at positions 2 and 3 of
  the positive table, in the order of its digits; the symbol 0 decodes to no label.
\<close>

theorem label_from_symbol_examples:
  "label_from_symbol (Num (- 5)) = Inr [SYMBOL_LABELS_NEG ! 0, SYMBOL_LABELS_NEG ! 2]
   \<and> then_do (label_from_symbol (Num (- 5))) (join '' '') = Inr ''Leire Grus''
   \<and> length SYMBOL_LABELS_NEG = 13
   \<and> label_from_symbol (Num 23) = Inr [SYMBOL_LABELS_POS ! 2, SYMBOL_LABELS_POS ! 3]
   \<and> then_do (label_from_symbol (Num 23)) (join '' '') = Inr ''Silt Sand''
   \<and> label_from_symbol (Num 0) = Inr []"
  by code_simp

section \<open>Properties of the fixed-arity segmenter\<close>

lemma split_tlk_loop_concat:
  "concat (split_tlk_loop lines blocks block c)
     = concat blocks @ block @ takeWhile (\<lambda>l. l \<noteq> ''*'') lines"
  by (induction lines arbitrary: blocks block c) auto

lemma split_tlk_loop_not_empty: "split_tlk_loop lines blocks block c \<noteq> []"
  by (induction lines arbitrary: blocks block c) auto

lemma split_tlk_loop_full_blocks:
  assumes "length block = c" and "list_all (\<lambda>b. length b = 3) blocks"
  shows "list_all (\<lambda>b. length b = 3) (butlast (split_tlk_loop lines blocks block c))"
  using assms
proof (induction lines arbitrary: blocks block c)
  case Nil
  then show ?case by simp
next
  case (Cons line lines)
  show ?case
  proof (cases "line = ''*''")
    case True
    with Cons.prems show ?thesis by simp
  next
    case not_star: False
    show ?thesis
    proof (cases "c = 3")
      case True
      have "list_all (\<lambda>b. length b = 3) (butlast (split_tlk_loop lines (blocks @ [block]) [line] 1))"
        by (rule Cons.IH) (use Cons.prems True in simp_all)
      with not_star True show ?thesis by simp
    next
      case False
      have "list_all (\<lambda>b. length b = 3)
              (butlast (split_tlk_loop lines blocks (block @ [line]) (c + 1)))"
        by (rule Cons.IH) (use Cons.prems in simp_all)
      with not_star False show ?thesis by simp
    qed
  qed
qed

lemma split_tlk_loop_last_length:
  assumes "length block = c" and "c \<le> 3"
  shows "length (last (split_tlk_loop lines blocks block c)) \<le> 3"
  using assms
proof (induction lines arbitrary: blocks block c)
  case Nil
  then show ?case by simp
next
  case (Cons line lines)
  show ?case
  proof (cases "line = ''*''")
    case True
    with Cons.prems show ?thesis by simp
  next
    case not_star: False
    show ?thesis
    proof (cases "c = 3")
      case True
      have "length (last (split_tlk_loop lines (blocks @ [block]) [line] 1)) \<le> 3"
        by (rule Cons.IH) simp_all
      with not_star True show ?thesis by simp
    next
      case False
      have "length (last (split_tlk_loop lines blocks (block @ [line]) (c + 1))) \<le> 3"
        by (rule Cons.IH) (use Cons.prems False in simp_all)
      with not_star False show ?thesis by simp
    qed
  qed
qed

lemma split_tlk_loop_last_empty:
  "(last (split_tlk_loop lines blocks block c) = [])
     = (block = [] \<and> takeWhile (\<lambda>l. l \<noteq> ''*'') lines = [])"
  by (induction lines arbitrary: blocks block c) auto

text \<open>
  Claim C5, as the code has it. The lines before the first asterisk line are cut into
  consecutive blocks, and the lines after it are ignored. Every block but the last has
  exactly three lines. The group that was being filled when the asterisk or the end of the
  input was reached is not discarded: it is the last block of the result, with at most
  three lines, and it is empty only when no line stands before the asterisk.
\<close>

theorem split_tlk_to_blocks_groups:
  "concat (split_tlk_to_blocks lines) = takeWhile (\<lambda>l. l \<noteq> ''*'') lines
   \<and> list_all (\<lambda>b. length b = 3) (butlast (split_tlk_to_blocks lines))
   \<and> split_tlk_to_blocks lines \<noteq> []
   \<and> length (last (split_tlk_to_blocks lines)) \<le> 3
   \<and> (last (split_tlk_to_blocks lines) = []) = (takeWhile (\<lambda>l. l \<noteq> ''*'') lines = [])"
  unfolding split_tlk_to_blocks_def
  by (simp add: split_tlk_loop_concat split_tlk_loop_not_empty split_tlk_loop_full_blocks
      split_tlk_loop_last_length split_tlk_loop_last_empty)

theorem split_tlk_to_blocks_groups_witness:
  "concat (split_tlk_to_blocks [''a'', ''b'', ''c'', ''d'', ''*'', ''e'']) = [''a'', ''b'', ''c'', ''d'']
   \<and> last (split_tlk_to_blocks [''a'', ''b'', ''c'', ''d'', ''*'', ''e'']) \<noteq> []"
  using split_tlk_to_blocks_groups [of "[''a'', ''b'', ''c'', ''d'', ''*'', ''e'']"]
  by simp

text \<open>The claim as the specification words it fails: the two lines read before the
  asterisk are a partial group, and they are a block of the result.\<close>

theorem split_tlk_partial_group_kept:
  "split_tlk_to_blocks [''a'', ''b'', ''*''] = [[''a'', ''b'']]"
  by code_simp

section \<open>Properties of the symbol annotation\<close>

text \<open>
  Claim C8 asks for the missing-value marker in every row whose symbol decodes to no
  label. The code tests for the empty label once, after its loop, so only the last row is
  repaired: with the symbols 0 and 1 in two rows, the first row keeps the empty string.
\<close>

theorem extract_and_add_symbol_text_first_row_empty:
  "extract_and_add_symbol_text [[(''symbol'', Num 0)], [(''symbol'', Num 1)]]
     = Inr [[(''symbol'', Num 0), (''symbol_soiltype'', Str [])],
            [(''symbol'', Num 1), (''symbol_soiltype'', Str ''Leire'')]]
   \<and> extract_and_add_symbol_text [[(''symbol'', Num 1)], [(''symbol'', Num 0)]]
     = Inr [[(''symbol'', Num 1), (''symbol_soiltype'', Str ''Leire'')],
            [(''symbol'', Num 0), (''symbol_soiltype'', Nan)]]"
  by code_simp

section \<open>Properties of the auxiliary-file orchestrator\<close>

text \<open>
  Claim C1 says that no entry point lets an exception reach its caller, and that fewer
  than two blocks give an auxiliary result with no rows and an error entry. For an input
  without any block the code reads the first block before it counts the blocks, and the
  \<^verbatim>\<open>IndexError\<close> of that read reaches the caller, whatever the tables are.
\<close>

theorem parse_prv_file_no_block_raises:
  "parse_prv_file M [] = Inl IndexError \<and> parse_prv_file M [''*''] = Inl IndexError"
  by (simp add: parse_prv_file_def parse_prv_blocks_def get_blocks_def getitem_def then_do_def)

section \<open>Properties of the unknown-material patch\<close>

text \<open>The text \<^verbatim>\<open>None\<close> in front of a line is a token of its own when the line starts
  with white space, and a part of the first token when the line starts with a token.\<close>

lemma split_None_before_space:
  "is_space c \<Longrightarrow> split (''None'' @ c # l) = ''None'' # split (c # l)"
  by (simp add: split_def is_space_def)

lemma split_run_longer_token:
  "cur \<noteq> [] \<Longrightarrow>
   split_run (cur @ pre) s = (rev pre @ hd (split_run cur s)) # tl (split_run cur s)"
proof (induction s arbitrary: cur)
  case Nil
  then show ?case by simp
next
  case (Cons a s)
  show ?case
  proof (cases "is_space a")
    case True
    with Cons.prems show ?thesis by simp
  next
    case False
    from Cons.IH [of "a # cur"] False show ?thesis by simp
  qed
qed

lemma split_None_before_token:
  assumes "\<not> is_space c"
  shows "split (''None'' @ c # l) = (''None'' @ hd (split (c # l))) # tl (split (c # l))"
proof -
  have "split (''None'' @ c # l) = split_run ([c] @ ''enoN'') l"
    using assms by (simp add: split_def is_space_def)
  also have "\<dots> = (''None'' @ hd (split_run [c] l)) # tl (split_run [c] l)"
    by (simp add: split_run_longer_token del: append.simps)
  also have "split_run [c] l = split (c # l)"
    using assms by (simp add: split_def)
  finally show ?thesis .
qed

text \<open>
  Claim C6 says that a token is put in front of the first line, so that the tokens of the
  line move up by one place. The code puts the text \<^verbatim>\<open>None\<close> in front of the line without
  a separator: for a line that starts with a token, the text joins that token, and the
  line has as many tokens as before.
\<close>

theorem add_empty_value_joins_first_token:
  "is_unknown_material [''1.0 2.0 Annet'', ''x'', ''y''] = Inr True
   \<and> add_empty_value_as_material_text_1 [''1.0 2.0 Annet'', ''x'', ''y'']
       = Inr [''None1.0 2.0 Annet'', ''x'', ''y'']
   \<and> split ''1.0 2.0 Annet'' = [''1.0'', ''2.0'', ''Annet'']
   \<and> split ''None1.0 2.0 Annet'' = [''None1.0'', ''2.0'', ''Annet'']"
  by code_simp

section \<open>Properties of the survey dispatcher\<close>

text \<open>A token for which \<^verbatim>\<open>isdigit()\<close> holds has no white space around it, no sign and no
  underscore, so \<^verbatim>\<open>int()\<close> returns its value when all its characters are decimal digits
  and they are not more than the limit, and raises \<^verbatim>\<open>ValueError\<close> otherwise.\<close>

lemma is_digit_not_int_space: "is_digit c \<Longrightarrow> \<not> is_int_space c"
  by (auto simp: is_digit_def is_decimal_def is_int_space_def)

lemma is_digit_not_sign: "is_digit c \<Longrightarrow> c \<noteq> CHR ''-'' \<and> c \<noteq> CHR ''+'' \<and> c \<noteq> CHR ''_''"
  by (auto simp: is_digit_def is_decimal_def)

lemma int_strip_digits: "isdigit s \<Longrightarrow> int_strip s = s"
proof -
  assume d: "isdigit s"
  then have ne: "s \<noteq> []" and all: "list_all is_digit s" by (auto simp: isdigit_def)
  from ne all have "\<not> is_int_space (hd s)"
    by (cases s) (auto simp: is_digit_not_int_space)
  with ne have a: "dropWhile is_int_space s = s" by (cases s) auto
  from ne all have "is_digit (last s)" by (simp add: list_all_iff)
  then have "\<not> is_int_space (hd (rev s))" using ne by (simp add: hd_rev is_digit_not_int_space)
  with ne have b: "dropWhile is_int_space (rev s) = rev s" by (cases "rev s") auto
  show ?thesis by (simp add: int_strip_def a b)
qed

lemma no_double_underscore_digits: "list_all is_digit s \<Longrightarrow> no_double_underscore s"
  by (induction s rule: no_double_underscore.induct) (auto simp: is_digit_not_sign)

lemma filter_decimals: "list_all is_decimal s \<Longrightarrow> filter is_decimal s = s"
  by (induction s) auto

lemma int_literal_digits:
  "isdigit s \<Longrightarrow>
   int_literal s = (list_all is_decimal s \<and> length s \<le> int_max_str_digits)"
proof -
  assume d: "isdigit s"
  then have ne: "s \<noteq> []" and all: "list_all is_digit s" by (auto simp: isdigit_def)
  have under: "list_all (\<lambda>c. is_decimal c \<or> c = CHR ''_'') s = list_all is_decimal s"
    using all by (induction s) (auto simp: is_digit_not_sign)
  have ends: "list_all is_decimal s \<Longrightarrow> is_decimal (hd s) \<and> is_decimal (last s)"
    using ne by (simp add: list_all_iff)
  show ?thesis
    using ne ends under no_double_underscore_digits [OF all]
    by (auto simp: int_literal_def filter_decimals)
qed

lemma int_of_string_digits:
  "isdigit s \<Longrightarrow>
   int_of_string s
     = (if list_all is_decimal s \<and> length s \<le> int_max_str_digits
        then Inr (int (digits_val s)) else Inl ValueError)"
proof -
  assume d: "isdigit s"
  then obtain c cs where s: "s = c # cs" by (cases s) (auto simp: isdigit_def)
  with d have c: "is_digit c" by (simp add: isdigit_def)
  have f: "list_all is_decimal s \<Longrightarrow> filter is_decimal s = s" by (rule filter_decimals)
  show ?thesis
    using int_strip_digits [OF d] int_literal_digits [OF d] is_digit_not_sign [OF c] f
    by (auto simp add: int_of_string_def s)
qed

lemma is_data_block_cases:
  "is_data_block (first_line # rest)
     = Inr (\<exists>survey_code date.
              split first_line = [survey_code, date]
              \<and> isdigit survey_code
              \<and> (if list_all is_decimal survey_code \<and> length survey_code \<le> int_max_str_digits
                 then int (digits_val survey_code) \<in> set KNOWN_SURVEY_CODES
                      \<and> ((\<exists>t. try_parse_datetime date = Inr t) \<or> isdigit date)
                 else isdigit date))"
proof (cases "\<exists>survey_code date. split first_line = [survey_code, date]")
  case False
  then have "is_data_block (first_line # rest) = Inr False"
    by (auto simp: is_data_block_def getitem_def then_do_def split: list.splits)
  with False show ?thesis by auto
next
  case True
  then obtain survey_code date where sp: "split first_line = [survey_code, date]" by blast
  show ?thesis
  proof (cases "isdigit survey_code")
    case False
    with sp show ?thesis
      by (simp add: is_data_block_def getitem_def then_do_def)
  next
    case True
    note int_of_string_digits [OF True]
    with sp True show ?thesis
      by (cases "try_parse_datetime date")
         (auto simp add: is_data_block_def getitem_def then_do_def)
  qed
qed

text \<open>The tokens of a line of two runs of characters with one space between them.\<close>

lemma split_run_token:
  "list_all (\<lambda>c. \<not> is_space c) xs \<Longrightarrow> split_run cur (xs @ ys) = split_run (rev xs @ cur) ys"
  by (induction xs arbitrary: cur) auto

lemma split_two_tokens:
  assumes "xs \<noteq> []" and "ys \<noteq> []"
    and "list_all (\<lambda>c. \<not> is_space c) xs" and "list_all (\<lambda>c. \<not> is_space c) ys"
  shows "split (xs @ CHR 0x20 # ys) = [xs, ys]"
proof -
  have "split (xs @ CHR 0x20 # ys) = split_run (rev xs @ []) (CHR 0x20 # ys)"
    unfolding split_def using assms(3) by (rule split_run_token)
  also have "\<dots> = xs # split_run [] (ys @ [])"
    using assms(1) by (simp add: is_space_def)
  also have "split_run [] (ys @ []) = split_run (rev ys @ []) []"
    using assms(4) by (rule split_run_token)
  also have "\<dots> = [ys]"
    using assms(2) by simp
  finally show ?thesis .
qed

text \<open>
  Claim C4 says that a block is a data block exactly when its first line has two tokens,
  the first token is all digits with a value among the known survey codes, and the second
  token parses as a date or, the date parse having raised, is all digits. The handler of
  the code also covers the conversion of the first token, which the test \<^verbatim>\<open>isdigit()\<close>
  does not make safe. For a first line made of a superscript two, a space and the digit 5,
  the first token is all digits, its conversion raises, and the block is classified as a
  data block because the second token is all digits. A first token of 4301 digits, whose
  value is no survey code, is accepted in the same way, and the survey code 7 written
  after 4300 zeros is refused although its date parses. The two examples of the claim are
  classified as the claim says.
\<close>

theorem is_data_block_code_conversion_raises:
  "split [CHR 0xB2, CHR 0x20, CHR ''5''] = [[CHR 0xB2], ''5'']
   \<and> isdigit [CHR 0xB2]
   \<and> int_of_string [CHR 0xB2] = Inl ValueError
   \<and> is_data_block [[CHR 0xB2, CHR 0x20, CHR ''5'']] = Inr True
   \<and> is_data_block [replicate 4301 (CHR ''1'') @ '' 1''] = Inr True
   \<and> is_data_block [replicate 4300 (CHR ''0'') @ ''7 01.02.2020''] = Inr False
   \<and> is_data_block [''7 01.02.2020''] = Inr True
   \<and> is_data_block [''99 xyz''] = Inr False"
proof -
  have a: "split [CHR 0xB2, CHR 0x20, CHR ''5''] = [[CHR 0xB2], ''5'']" by code_simp
  have b: "isdigit [CHR 0xB2]" by code_simp
  have c: "int_of_string [CHR 0xB2] = Inl ValueError" by code_simp
  have d: "is_data_block [[CHR 0xB2, CHR 0x20, CHR ''5'']] = Inr True" by code_simp
  have e: "is_data_block [replicate 4301 (CHR ''1'') @ '' 1''] = Inr True"
  proof -
    have "split (replicate 4301 (CHR ''1'') @ CHR 0x20 # ''1'') = [replicate 4301 (CHR ''1''), ''1'']"
      by (rule split_two_tokens) (simp_all add: list_all_iff is_space_def)
    moreover have "isdigit (replicate 4301 (CHR ''1''))"
      by (simp add: isdigit_def list_all_iff is_digit_def is_decimal_def)
    moreover have "isdigit ''1''" by code_simp
    ultimately show ?thesis
      by (simp add: is_data_block_cases int_max_str_digits_def)
  qed
  have f: "is_data_block [replicate 4300 (CHR ''0'') @ ''7 01.02.2020''] = Inr False"
  proof -
    have "list_all (\<lambda>c. \<not> is_space c) ''01.02.2020''" by code_simp
    then have "split ((replicate 4300 (CHR ''0'') @ ''7'') @ CHR 0x20 # ''01.02.2020'')
            = [replicate 4300 (CHR ''0'') @ ''7'', ''01.02.2020'']"
      by (intro split_two_tokens) (simp_all add: list_all_iff is_space_def)
    moreover have "isdigit (replicate 4300 (CHR ''0'') @ ''7'')"
      by (simp add: isdigit_def list_all_iff is_digit_def is_decimal_def)
    moreover have "\<not> isdigit ''01.02.2020''" by code_simp
    ultimately show ?thesis
      by (simp add: is_data_block_cases int_max_str_digits_def)
  qed
  have g: "is_data_block [''7 01.02.2020''] = Inr True" by code_simp
  have h: "is_data_block [''99 xyz''] = Inr False" by code_simp
  from a b c d e f g h show ?thesis by (intro conjI)
qed

section \<open>Properties of the comment-code indicator converter\<close>

lemma apply_comment_codes_append:
  "apply_comment_codes M (xs @ ys) ind
     = then_do (apply_comment_codes M xs ind) (apply_comment_codes M ys)"
  by (induction xs arbitrary: ind) (auto simp: then_do_def split: sum.splits)

lemma apply_comment_code_returns:
  "numeric_codes M \<Longrightarrow> \<exists>ind'. apply_comment_code M token ind = Inr ind'"
  by (auto simp: numeric_codes_def apply_comment_code_def list_all_iff Let_def then_do_def
      split: sum.splits option.splits)

lemma apply_comment_codes_returns:
  "numeric_codes M \<Longrightarrow> \<exists>ind'. apply_comment_codes M tokens ind = Inr ind'"
proof (induction tokens arbitrary: ind)
  case Nil
  then show ?case by simp
next
  case (Cons token tokens)
  from apply_comment_code_returns [OF Cons.prems]
  obtain ind1 where "apply_comment_code M token ind = Inr ind1" by blast
  with Cons.IH [OF Cons.prems, of ind1] show ?case by simp
qed

lemma apply_off_code:
  assumes "switches_with M (off_codes f) token"
    and "apply_comment_code M token ind = Inr ind'"
  shows "flag_value f ind' = Num 0"
  using assms
  by (cases f)
     (auto simp: switches_with_def apply_comment_code_def token_code_def Let_def off_codes_def
       flag_value_def modify_indicator_by_code_def split: sum.splits option.splits)

lemma apply_other_code:
  assumes "\<not> switches_with M (on_codes f @ off_codes f) token"
    and "apply_comment_code M token ind = Inr ind'"
  shows "flag_value f ind' = flag_value f ind"
  using assms
  by (cases f)
     (auto simp: switches_with_def apply_comment_code_def token_code_def Let_def off_codes_def
       on_codes_def flag_value_def modify_indicator_by_code_def
       split: sum.splits option.splits if_splits)

lemma apply_other_codes:
  assumes "list_all (\<lambda>t. \<not> switches_with M (on_codes f @ off_codes f) t) tokens"
    and "apply_comment_codes M tokens ind = Inr ind'"
  shows "flag_value f ind' = flag_value f ind"
  using assms
proof (induction tokens arbitrary: ind)
  case Nil
  then show ?case by simp
next
  case (Cons token tokens)
  from Cons.prems(2) obtain ind1 where
    one: "apply_comment_code M token ind = Inr ind1"
    and more: "apply_comment_codes M tokens ind1 = Inr ind'"
    by (cases "apply_comment_code M token ind") auto
  from Cons.prems(1) one have "flag_value f ind1 = flag_value f ind"
    by (auto intro: apply_other_code)
  moreover from Cons.prems(1) more have "flag_value f ind' = flag_value f ind1"
    by (auto intro: Cons.IH)
  ultimately show ?case by simp
qed

lemma map_of_indicators:
  "map_of (dict_merge row (indicators_dict ind)) (flag_key f) = Some (flag_value f ind)"
  by (cases f) (simp_all add: dict_merge_def indicators_dict_def map_of_setitem flag_key_def
      flag_value_def)

lemma apply_on_code:
  assumes "switches_with M (on_codes f) token"
    and "apply_comment_code M token ind = Inr ind'"
  shows "flag_value f ind' = Num 1"
  using assms
  by (cases f)
     (auto simp: switches_with_def apply_comment_code_def token_code_def Let_def on_codes_def
       flag_value_def modify_indicator_by_code_def split: sum.splits option.splits)

text \<open>The list comprehension returns when each element converts, element by element.\<close>

lemma mapM_Inr_iff: "(mapM f xs = Inr ys) = list_all2 (\<lambda>x y. f x = Inr y) xs ys"
proof (induction xs arbitrary: ys)
  case Nil
  then show ?case by auto
next
  case (Cons x xs)
  show ?case
    by (cases "f x"; cases "mapM f xs"; cases ys) (auto simp: Cons.IH [symmetric])
qed

lemma mapM_returns:
  "list_all (\<lambda>x. case f x of Inl e \<Rightarrow> False | Inr y \<Rightarrow> True) xs \<Longrightarrow> \<exists>ys. mapM f xs = Inr ys"
  by (induction xs) (auto split: sum.splits)

lemma convert_row_returns:
  assumes "numeric_codes M" and "has_comment row"
  shows "\<exists>row'. convert_row M row = Inr row'"
proof -
  from assms(2) obtain v where v: "dict_get row ''kommentar'' = Inr v"
    by (auto simp: has_comment_def split: sum.splits)
  have "\<exists>ind. row_indicators M row = Inr ind"
    using apply_comment_codes_returns [OF assms(1)]
    by (cases v) (simp_all add: row_indicators_def v)
  then show ?thesis by (auto simp: convert_row_def)
qed

lemma convert_rows_return:
  assumes "numeric_codes M" and "list_all has_comment rows"
  shows "\<exists>converted. convert_comment_codes_to_indicator_columns M rows = Inr converted"
  unfolding convert_comment_codes_to_indicator_columns_def
proof (rule mapM_returns)
  show "list_all (\<lambda>x. case convert_row M x of Inl e \<Rightarrow> False | Inr y \<Rightarrow> True) rows"
    using assms(2) convert_row_returns [OF assms(1)]
    by (fastforce simp: list_all_iff)
qed

text \<open>The indicators of one row whose comment switches a flag on and then off.\<close>

lemma off_code_in_row:
  assumes "numeric_codes M"
    and "dict_get row ''kommentar'' = Inr (Str comment)"
    and "split comment = before @ [on_token] @ between @ [off_token] @ after"
    and "switches_with M (on_codes f) on_token"
    and "switches_with M (off_codes f) off_token"
    and "list_all (\<lambda>t. \<not> switches_with M (on_codes f @ off_codes f) t) after"
  shows "\<exists>ind_on ind row'.
           apply_comment_codes M (before @ [on_token]) initial_indicators = Inr ind_on
           \<and> flag_value f ind_on = Num 1
           \<and> row_indicators M row = Inr ind
           \<and> flag_value f ind = Num 0
           \<and> convert_row M row = Inr row'
           \<and> map_of row' (flag_key f) = Some (Num 0)"
proof -
  obtain ind1 where s1: "apply_comment_codes M before initial_indicators = Inr ind1"
    using apply_comment_codes_returns [OF assms(1)] by blast
  obtain ind2 where s2: "apply_comment_code M on_token ind1 = Inr ind2"
    using apply_comment_code_returns [OF assms(1)] by blast
  obtain ind3 where s3: "apply_comment_codes M between ind2 = Inr ind3"
    using apply_comment_codes_returns [OF assms(1)] by blast
  obtain ind4 where s4: "apply_comment_code M off_token ind3 = Inr ind4"
    using apply_comment_code_returns [OF assms(1)] by blast
  obtain ind5 where s5: "apply_comment_codes M after ind4 = Inr ind5"
    using apply_comment_codes_returns [OF assms(1)] by blast
  have on: "apply_comment_codes M (before @ [on_token]) initial_indicators = Inr ind2"
    by (simp add: apply_comment_codes_append s1 s2)
  have on_value: "flag_value f ind2 = Num 1"
    by (rule apply_on_code [OF assms(4) s2])
  have "apply_comment_codes M (split comment) initial_indicators = Inr ind5"
    by (simp add: assms(3) apply_comment_codes_append s1 s2 s3 s4 s5)
  with assms(2) have ri: "row_indicators M row = Inr ind5"
    by (simp add: row_indicators_def)
  have "flag_value f ind4 = Num 0"
    by (rule apply_off_code [OF assms(5) s4])
  with apply_other_codes [OF assms(6) s5] have off_value: "flag_value f ind5 = Num 0"
    by simp
  from ri have cr: "convert_row M row = Inr (dict_merge row (indicators_dict ind5))"
    by (simp add: convert_row_def)
  from on on_value ri off_value cr map_of_indicators [of row ind5 f]
  show ?thesis by simp
qed

text \<open>
  Claim C9. Let every row of a block have a comment field, and let the comment of one row
  hold a token that switches a flag on and, later, a token that switches the same flag
  off, no token after that one acting on the flag (the off code is the last code applied
  to it). Then the converter returns one converted row for each row of the block, and in
  the converted row at the place of that row the flag is off (0), although it is on after
  the on token: the flag is assigned by each code, not combined with its old value. The
  values of the table of text codes are taken to be numbers.
\<close>

theorem off_code_after_on_code_wins:
  assumes "numeric_codes M"
    and "parsed_snd_block = rows_before @ [row] @ rows_after"
    and "list_all has_comment parsed_snd_block"
    and "dict_get row ''kommentar'' = Inr (Str comment)"
    and "split comment = before @ [on_token] @ between @ [off_token] @ after"
    and "switches_with M (on_codes f) on_token"
    and "switches_with M (off_codes f) off_token"
    and "list_all (\<lambda>t. \<not> switches_with M (on_codes f @ off_codes f) t) after"
  shows "\<exists>ind_on ind row' converted.
           apply_comment_codes M (before @ [on_token]) initial_indicators = Inr ind_on
           \<and> flag_value f ind_on = Num 1
           \<and> row_indicators M row = Inr ind
           \<and> flag_value f ind = Num 0
           \<and> convert_row M row = Inr row'
           \<and> map_of row' (flag_key f) = Some (Num 0)
           \<and> convert_comment_codes_to_indicator_columns M parsed_snd_block = Inr converted
           \<and> length converted = length parsed_snd_block
           \<and> converted ! length rows_before = row'
           \<and> map_of (converted ! length rows_before) (flag_key f) = Some (Num 0)"
proof -
  from off_code_in_row [OF assms(1) assms(4-8)]
  obtain ind_on ind row' where
    on: "apply_comment_codes M (before @ [on_token]) initial_indicators = Inr ind_on"
    and on_value: "flag_value f ind_on = Num 1"
    and ri: "row_indicators M row = Inr ind"
    and off_value: "flag_value f ind = Num 0"
    and cr: "convert_row M row = Inr row'"
    and flag: "map_of row' (flag_key f) = Some (Num 0)"
    by blast
  from convert_rows_return [OF assms(1) assms(3)]
  obtain converted where
    conv: "convert_comment_codes_to_indicator_columns M parsed_snd_block = Inr converted"
    by blast
  then have rel: "list_all2 (\<lambda>r r'. convert_row M r = Inr r') parsed_snd_block converted"
    by (simp add: convert_comment_codes_to_indicator_columns_def mapM_Inr_iff)
  then have len: "length converted = length parsed_snd_block"
    by (simp add: list_all2_lengthD)
  have pos: "length rows_before < length parsed_snd_block"
    by (simp add: assms(2))
  from list_all2_nthD [OF rel pos]
  have "convert_row M row = Inr (converted ! length rows_before)"
    by (simp add: assms(2))
  with cr have nth: "converted ! length rows_before = row'" by simp
  from on on_value ri off_value cr flag conv len nth show ?thesis by simp
qed

theorem off_code_after_on_code_wins_witness:
  "numeric_codes example_mappings
   \<and> list_all has_comment
        ([[(''dybde'', Num 1), (''kommentar'', Str ''R1'')]]
         @ [[(''dybde'', Num 2), (''kommentar'', Str ''x R1 S1 R2 y'')]]
         @ [[(''dybde'', Num 3), (''kommentar'', Nan)]])
   \<and> dict_get [(''dybde'', Num 2), (''kommentar'', Str ''x R1 S1 R2 y'')] ''kommentar''
       = Inr (Str ''x R1 S1 R2 y'')
   \<and> split ''x R1 S1 R2 y'' = [''x''] @ [''R1''] @ [''S1''] @ [''R2''] @ [''y'']
   \<and> switches_with example_mappings (on_codes Okt_rotasjon) ''R1''
   \<and> switches_with example_mappings (off_codes Okt_rotasjon) ''R2''
   \<and> (\<exists>ind_on ind row' converted.
         apply_comment_codes example_mappings ([''x''] @ [''R1'']) initial_indicators = Inr ind_on
         \<and> flag_value Okt_rotasjon ind_on = Num 1
         \<and> row_indicators example_mappings
               [(''dybde'', Num 2), (''kommentar'', Str ''x R1 S1 R2 y'')] = Inr ind
         \<and> flag_value Okt_rotasjon ind = Num 0
         \<and> convert_row example_mappings
               [(''dybde'', Num 2), (''kommentar'', Str ''x R1 S1 R2 y'')] = Inr row'
         \<and> map_of row' (flag_key Okt_rotasjon) = Some (Num 0)
         \<and> convert_comment_codes_to_indicator_columns example_mappings
               ([[(''dybde'', Num 1), (''kommentar'', Str ''R1'')]]
                @ [[(''dybde'', Num 2), (''kommentar'', Str ''x R1 S1 R2 y'')]]
                @ [[(''dybde'', Num 3), (''kommentar'', Nan)]]) = Inr converted
         \<and> length converted = 3
         \<and> converted ! 1 = row'
         \<and> map_of (converted ! 1) (flag_key Okt_rotasjon) = Some (Num 0))
   \<and> convert_comment_codes_to_indicator_columns example_mappings
        [[(''dybde'', Num 1), (''kommentar'', Str ''R1'')],
         [(''dybde'', Num 2), (''kommentar'', Str ''x R1 S1 R2 y'')],
         [(''dybde'', Num 3), (''kommentar'', Nan)]]
      = Inr [[(''dybde'', Num 1), (''kommentar'', Str ''R1''), (''okt_rotasjon'', Num 1),
              (''spyling'', Nan), (''slag'', Nan), (''pumping'', Nan), (''comment_label'', Nan)],
             [(''dybde'', Num 2), (''kommentar'', Str ''x R1 S1 R2 y''), (''okt_rotasjon'', Num 0),
              (''spyling'', Nan), (''slag'', Nan), (''pumping'', Nan), (''comment_label'', Num 41)],
             [(''dybde'', Num 3), (''kommentar'', Nan), (''okt_rotasjon'', Nan),
              (''spyling'', Nan), (''slag'', Nan), (''pumping'', Nan), (''comment_label'', Nan)]]"
proof -
  let ?r1 = "[(''dybde'', Num 1), (''kommentar'', Str ''R1'')]"
  let ?r2 = "[(''dybde'', Num 2), (''kommentar'', Str ''x R1 S1 R2 y'')]"
  let ?r3 = "[(''dybde'', Num 3), (''kommentar'', Nan)]"
  have h1: "numeric_codes example_mappings" by code_simp
  have h2: "[?r1] @ [?r2] @ [?r3] = [?r1] @ [?r2] @ [?r3]" by (rule refl)
  have h3: "list_all has_comment ([?r1] @ [?r2] @ [?r3])" by code_simp
  have h4: "dict_get ?r2 ''kommentar'' = Inr (Str ''x R1 S1 R2 y'')" by code_simp
  have h5: "split ''x R1 S1 R2 y'' = [''x''] @ [''R1''] @ [''S1''] @ [''R2''] @ [''y'']"
    by code_simp
  have h6: "switches_with example_mappings (on_codes Okt_rotasjon) ''R1''" by code_simp
  have h7: "switches_with example_mappings (off_codes Okt_rotasjon) ''R2''" by code_simp
  have h8: "list_all
              (\<lambda>t. \<not> switches_with example_mappings
                        (on_codes Okt_rotasjon @ off_codes Okt_rotasjon) t) [''y'']"
    by code_simp
  have run: "convert_comment_codes_to_indicator_columns example_mappings [?r1, ?r2, ?r3]
      = Inr [[(''dybde'', Num 1), (''kommentar'', Str ''R1''), (''okt_rotasjon'', Num 1),
              (''spyling'', Nan), (''slag'', Nan), (''pumping'', Nan), (''comment_label'', Nan)],
             [(''dybde'', Num 2), (''kommentar'', Str ''x R1 S1 R2 y''), (''okt_rotasjon'', Num 0),
              (''spyling'', Nan), (''slag'', Nan), (''pumping'', Nan), (''comment_label'', Num 41)],
             [(''dybde'', Num 3), (''kommentar'', Nan), (''okt_rotasjon'', Nan),
              (''spyling'', Nan), (''slag'', Nan), (''pumping'', Nan), (''comment_label'', Nan)]]"
    by code_simp
  have len: "length ([?r1] @ [?r2] @ [?r3]) = 3" and pos: "length [?r1] = 1" by simp_all
  from off_code_after_on_code_wins [OF h1 h2 h3 h4 h5 h6 h7 h8]
  have "\<exists>ind_on ind row' converted.
         apply_comment_codes example_mappings ([''x''] @ [''R1'']) initial_indicators = Inr ind_on
         \<and> flag_value Okt_rotasjon ind_on = Num 1
         \<and> row_indicators example_mappings ?r2 = Inr ind
         \<and> flag_value Okt_rotasjon ind = Num 0
         \<and> convert_row example_mappings ?r2 = Inr row'
         \<and> map_of row' (flag_key Okt_rotasjon) = Some (Num 0)
         \<and> convert_comment_codes_to_indicator_columns example_mappings
               ([?r1] @ [?r2] @ [?r3]) = Inr converted
         \<and> length converted = 3
         \<and> converted ! 1 = row'
         \<and> map_of (converted ! 1) (flag_key Okt_rotasjon) = Some (Num 0)"
    by (simp only: len pos)
  with h1 h3 h4 h5 h6 h7 run show ?thesis by blast
qed

section \<open>Properties of the metadata block extractor\<close>

lemma parse_nested_returns:
  "\<not> list_ex (nested_aborts block i) sub \<Longrightarrow>
   parse_nested block i sub d = Inr (fold (\<lambda>(k, v). setitem k v) (map (nested_item block i) sub) d)"
proof (induction sub arbitrary: d)
  case Nil
  then show ?case by simp
next
  case (Cons entry sub)
  obtain key2 j dt where entry: "entry = (key2, j, dt)" by (cases entry) auto
  from Cons.prems have rest: "\<not> list_ex (nested_aborts block i) sub" by simp
  from Cons.prems entry show ?case
    by (cases "nested_attempt block i j dt")
       (auto simp: Cons.IH [OF rest] nested_aborts_def nested_item_def nested_attempt_def
         value_or_nan_def)
qed

lemma parse_nested_aborts:
  "list_ex (nested_aborts block i) sub \<Longrightarrow> \<exists>e. parse_nested block i sub d = Inl e"
proof (induction sub arbitrary: d)
  case Nil
  then show ?case by simp
next
  case (Cons entry sub)
  obtain key2 j dt where entry: "entry = (key2, j, dt)" by (cases entry) auto
  show ?case
  proof (cases "nested_aborts block i entry")
    case True
    with entry show ?thesis
      by (cases "nested_attempt block i j dt")
         (auto simp: nested_aborts_def nested_attempt_def)
  next
    case False
    with Cons.prems have "list_ex (nested_aborts block i) sub" by simp
    from Cons.IH [OF this] entry show ?thesis
      by (cases "nested_attempt block i j dt")
         (auto simp: nested_attempt_def)
  qed
qed

lemma fold_setitem_concat:
  "fold (\<lambda>(k, v). setitem k v) (concat xss) d = fold (fold (\<lambda>(k, v). setitem k v)) xss d"
  by (induction xss arbitrary: d) auto

lemma parse_fields_returns:
  "\<not> list_ex (field_aborts block) mapping \<Longrightarrow>
   parse_fields block mapping d
     = Inr (fold (\<lambda>(k, v). setitem k v) (concat (map (field_items block) mapping)) d)"
proof (induction mapping arbitrary: d)
  case Nil
  then show ?case by simp
next
  case (Cons entry mapping)
  obtain key1 fld where entry: "entry = (key1, fld)" by (cases entry) auto
  from Cons.prems have rest: "\<not> list_ex (field_aborts block) mapping" by simp
  show ?case
  proof (cases fld)
    case (Field i dt)
    with Cons.prems entry show ?thesis
      by (cases "plain_attempt block i dt")
         (auto simp: Cons.IH [OF rest] plain_attempt_def value_or_nan_def)
  next
    case (Nested i sub)
    with Cons.prems entry have "\<not> list_ex (nested_aborts block i) sub" by simp
    from parse_nested_returns [OF this] Nested entry show ?thesis
      by (simp add: Cons.IH [OF rest] then_do_def)
  qed
qed

lemma parse_fields_aborts:
  "list_ex (field_aborts block) mapping \<Longrightarrow> \<exists>e. parse_fields block mapping d = Inl e"
proof (induction mapping arbitrary: d)
  case Nil
  then show ?case by simp
next
  case (Cons entry mapping)
  obtain key1 fld where entry: "entry = (key1, fld)" by (cases entry) auto
  show ?case
  proof (cases "field_aborts block entry")
    case True
    show ?thesis
    proof (cases fld)
      case (Field i dt)
      with True entry show ?thesis
        by (cases "plain_attempt block i dt") (auto simp: plain_attempt_def)
    next
      case (Nested i sub)
      with True entry have "list_ex (nested_aborts block i) sub" by simp
      from parse_nested_aborts [OF this, of d] Nested entry show ?thesis
        by (auto simp: then_do_def)
    qed
  next
    case False
    with Cons.prems have ex: "list_ex (field_aborts block) mapping" by simp
    show ?thesis
    proof (cases fld)
      case (Field i dt)
      with entry Cons.IH [OF ex] show ?thesis
        by (cases "plain_attempt block i dt") (auto simp: plain_attempt_def)
    next
      case (Nested i sub)
      with entry Cons.IH [OF ex] show ?thesis
        by (cases "parse_nested block i sub d") (auto simp: then_do_def)
    qed
  qed
qed

lemma keys_setitem: "fst ` set (setitem k v d) = insert k (fst ` set d)"
  by (simp add: dom_map_of_conv_image_fst [symmetric] map_of_setitem)

lemma keys_fold_setitem:
  "fst ` set (fold (\<lambda>(k, v). setitem k v) xs d) = fst ` set xs \<union> fst ` set d"
proof (induction xs arbitrary: d)
  case Nil
  then show ?case by simp
next
  case (Cons x xs)
  obtain k v where x: "x = (k, v)" by (cases x) auto
  show ?case by (simp add: Cons.IH keys_setitem x)
qed

text \<open>
  Claim C3, as the code has it. A field of a nested entry whose line index or token index
  is out of range, or whose conversion raises \<^verbatim>\<open>ValueError\<close> or \<^verbatim>\<open>IndexError\<close>, gets the
  missing-value marker, and so does a whole-line field whose line index is out of range
  or whose conversion raises \<^verbatim>\<open>IndexError\<close>. As long as no conversion raises an exception
  that its handler does not name, the extractor returns a record that holds every mapped
  key, and the value of each field is a function of its own table entry and the block.
  A conversion that raises such an exception, as \<^verbatim>\<open>ValueError\<close> does for a whole-line
  field, ends the extraction of the block with that exception and without a record.
\<close>

theorem parse_metadata_block_fields:
  "(\<not> list_ex (field_aborts block) mapping \<longrightarrow>
      parse_metadata_block block mapping
        = Inr (dict_merge [] (concat (map (field_items block) mapping)))
      \<and> fst ` set (dict_merge [] (concat (map (field_items block) mapping)))
        = fst ` set (concat (map (field_items block) mapping)))
   \<and> (list_ex (field_aborts block) mapping \<longrightarrow>
        (\<exists>e. parse_metadata_block block mapping = Inl e))"
  by (simp add: parse_metadata_block_def dict_merge_def parse_fields_returns
      parse_fields_aborts keys_fold_setitem)

theorem parse_metadata_block_fields_witness:
  "parse_metadata_block [''12 abc'']
     [(''line'', Nested 0 [(''n'', 0, dtype_int), (''m'', 1, dtype_int), (''k'', 7, dtype_str)]),
      (''b'', Field 3 dtype_str), (''c'', Field 0 dtype_str)]
     = Inr [(''n'', Num 12), (''m'', Nan), (''k'', Nan), (''b'', Nan), (''c'', Str ''12 abc'')]
   \<and> (\<exists>e. parse_metadata_block [''abc'', ''xyz'']
              [(''a'', Field 0 dtype_int), (''b'', Field 1 dtype_str)] = Inl e)"
proof -
  have a: "\<not> list_ex (field_aborts [''12 abc''])
     [(''line'', Nested 0 [(''n'', 0, dtype_int), (''m'', 1, dtype_int), (''k'', 7, dtype_str)]),
      (''b'', Field 3 dtype_str), (''c'', Field 0 dtype_str)]"
    by code_simp
  have b: "list_ex (field_aborts [''abc'', ''xyz''])
     [(''a'', Field 0 dtype_int), (''b'', Field 1 dtype_str)]"
    by code_simp
  have c: "dict_merge [] (concat (map (field_items [''12 abc''])
     [(''line'', Nested 0 [(''n'', 0, dtype_int), (''m'', 1, dtype_int), (''k'', 7, dtype_str)]),
      (''b'', Field 3 dtype_str), (''c'', Field 0 dtype_str)]))
     = [(''n'', Num 12), (''m'', Nan), (''k'', Nan), (''b'', Nan), (''c'', Str ''12 abc'')]"
    by code_simp
  from parse_metadata_block_fields [of "[''12 abc'']"
     "[(''line'', Nested 0 [(''n'', 0, dtype_int), (''m'', 1, dtype_int), (''k'', 7, dtype_str)]),
      (''b'', Field 3 dtype_str), (''c'', Field 0 dtype_str)]"] a
  have "parse_metadata_block [''12 abc'']
     [(''line'', Nested 0 [(''n'', 0, dtype_int), (''m'', 1, dtype_int), (''k'', 7, dtype_str)]),
      (''b'', Field 3 dtype_str), (''c'', Field 0 dtype_str)]
     = Inr (dict_merge [] (concat (map (field_items [''12 abc''])
     [(''line'', Nested 0 [(''n'', 0, dtype_int), (''m'', 1, dtype_int), (''k'', 7, dtype_str)]),
      (''b'', Field 3 dtype_str), (''c'', Field 0 dtype_str)])))"
    by blast
  then have r1: "parse_metadata_block [''12 abc'']
     [(''line'', Nested 0 [(''n'', 0, dtype_int), (''m'', 1, dtype_int), (''k'', 7, dtype_str)]),
      (''b'', Field 3 dtype_str), (''c'', Field 0 dtype_str)]
     = Inr [(''n'', Num 12), (''m'', Nan), (''k'', Nan), (''b'', Nan), (''c'', Str ''12 abc'')]"
    by (simp only: c)
  from parse_metadata_block_fields [of "[''abc'', ''xyz'']"
     "[(''a'', Field 0 dtype_int), (''b'', Field 1 dtype_str)]"] b
  have r2: "\<exists>e. parse_metadata_block [''abc'', ''xyz'']
              [(''a'', Field 0 dtype_int), (''b'', Field 1 dtype_str)] = Inl e"
    by blast
  from r1 r2 show ?thesis by blast
qed

text \<open>The claim as the specification words it fails for a whole-line field whose
  conversion fails: the field \<open>a\<close> is not set to the marker and the field \<open>b\<close> gets no
  value, the \<^verbatim>\<open>ValueError\<close> of \<^verbatim>\<open>int\<close> leaves the extractor.\<close>

theorem parse_metadata_block_plain_value_error:
  "parse_metadata_block [''abc'', ''xyz'']
     [(''a'', Field 0 dtype_int), (''b'', Field 1 dtype_str)] = Inl ValueError"
  by code_simp

section \<open>Properties of the sound-file orchestrator\<close>

lemma scan_data_block_no_break:
  assumes "is_data_block block = Inr True" and "\<not> is_cpt_data_block M block"
  shows "scan_data_block M blocks i block \<noteq> Inr (Append_and_break entry)"
  using assms
  by (auto simp: is_cpt_data_block_def scan_data_block_def then_do_def Let_def
      split: sum.splits prod.splits if_splits)

lemma scan_blocks_append:
  assumes "list_all (\<lambda>b. \<not> is_cpt_data_block M b) before"
  shows "scan_blocks M blocks i (before @ later) data_blocks errors
     = then_do (scan_blocks M blocks i before data_blocks errors)
         (\<lambda>(data_blocks', errors').
            scan_blocks M blocks (i + int (length before)) later data_blocks' errors')"
  using assms
proof (induction before arbitrary: i data_blocks errors)
  case Nil
  then show ?case by simp
next
  case (Cons block before)
  from Cons.prems have rest: "list_all (\<lambda>b. \<not> is_cpt_data_block M b) before"
    and this_one: "\<not> is_cpt_data_block M block" by simp_all
  have shift: "i + 1 + int (length before) = i + int (length (block # before))" by simp
  note IH = Cons.IH [OF rest, of "i + 1", unfolded shift]
  show ?case
  proof (cases "is_data_block block")
    case (Inl e)
    then show ?thesis by simp
  next
    case (Inr is_data)
    show ?thesis
    proof (cases is_data)
      case False
      with Inr IH show ?thesis by simp
    next
      case True
      with Inr have d: "is_data_block block = Inr True" by simp
      show ?thesis
      proof (cases "scan_data_block M blocks i block")
        case (Inl e)
        with d IH show ?thesis by simp
      next
        case (Inr out)
        with scan_data_block_no_break [OF d this_one, of blocks i]
        have "\<forall>entry. out \<noteq> Append_and_break entry" by auto
        with d Inr IH show ?thesis by (cases out) simp_all
      qed
    qed
  qed
qed

lemma scan_blocks_cpt:
  assumes "is_cpt_data_block M block"
    and "parse_unknown_data_block M block = Inr (metadata, data)"
    and "cpt_trailing_metadata M blocks (i + 1) = Inr trailing"
  shows "scan_blocks M blocks i (block # following) data_blocks errors
     = Inr (data_blocks @
              [\<lparr>db_metadata = dict_merge (setitem ''type'' (Str ''cpt'') metadata) trailing,
                db_data = data\<rparr>], errors)"
  using assms
  by (simp add: is_cpt_data_block_def scan_data_block_def SURVEY_CODE_TO_TEXT_def)

lemma getitem_append_cons:
  "getitem (xs @ x # ys) (int (length xs) + 1)
     = (case ys of [] \<Rightarrow> Inl IndexError | y # _ \<Rightarrow> Inr y)"
  by (cases ys) (auto simp: getitem_def nth_append nat_add_distrib)

lemma cpt_trailing_metadata_following:
  "cpt_trailing_metadata M (previous @ block # following) (int (length previous) + 1)
     = trailing_metadata_of M following"
  by (cases following)
     (auto simp: cpt_trailing_metadata_def trailing_metadata_of_def getitem_append_cons
       split: sum.splits)


lemma parse_snd_file_few_blocks:
  "length (get_blocks lines) < 3 \<Longrightarrow>
   \<exists>r. parse_snd_file M lines 3 = Inr r \<and> snd_errors r \<noteq> [] \<and> snd_blocks r = []"
  by (simp add: parse_snd_file_def parse_snd_blocks_def Let_def)

lemma parse_snd_file_cpt:
  assumes blocks: "get_blocks lines = blocks"
    and enough: "3 \<le> length blocks"
    and first: "parse_metadata_block (blocks ! 0) (first_block_mapping M) = Inr first_block"
    and second: "parse_metadata_block (blocks ! 1) (second_block_mapping M) = Inr second_block"
    and third_is_data: "is_data_block (blocks ! 2) = Inr is_data"
    and third:
      "(if is_data then Inr (initialize_empty_mapping (third_block_mapping M))
        else parse_metadata_block (blocks ! 2) (third_block_mapping M)) = Inr third_block"
    and scanned: "drop (if is_data then 2 else 3) blocks = before @ cpt # following"
    and no_cpt_before: "list_all (\<lambda>b. \<not> is_cpt_data_block M b) before"
    and before: "scan_blocks M blocks (if is_data then 2 else 3) before [] []
                   = Inr (data_blocks, errors)"
    and cpt: "is_cpt_data_block M cpt"
    and cpt_parsed: "parse_unknown_data_block M cpt = Inr (metadata, data)"
    and trailing: "trailing_metadata_of M following = Inr trailing"
  shows "parse_snd_file M lines 3
     = Inr \<lparr>snd_metadata = dict_merge (dict_merge first_block second_block) third_block,
            snd_blocks = data_blocks @
              [\<lparr>db_metadata = dict_merge (setitem ''type'' (Str ''cpt'') metadata) trailing,
                db_data = data\<rparr>],
            snd_errors = errors\<rparr>"
proof -
  define bi :: nat where "bi = (if is_data then 2 else 3)"
  have bi_le: "bi \<le> length blocks" using enough by (simp add: bi_def)
  have split_blocks: "blocks = (take bi blocks @ before) @ cpt # following"
    using scanned append_take_drop_id [of bi blocks] by (simp add: bi_def)
  have len: "length (take bi blocks @ before) = bi + length before"
    using bi_le by simp
  have "cpt_trailing_metadata M ((take bi blocks @ before) @ cpt # following)
          (int (length (take bi blocks @ before)) + 1) = trailing_metadata_of M following"
    by (rule cpt_trailing_metadata_following)
  then have tr: "cpt_trailing_metadata M blocks (int bi + int (length before) + 1) = Inr trailing"
    using split_blocks len trailing by simp
  have at_cpt: "scan_blocks M blocks (int bi + int (length before)) (cpt # following)
                  data_blocks errors
     = Inr (data_blocks @
              [\<lparr>db_metadata = dict_merge (setitem ''type'' (Str ''cpt'') metadata) trailing,
                db_data = data\<rparr>], errors)"
    by (rule scan_blocks_cpt [OF cpt cpt_parsed tr])
  have "scan_blocks M blocks (int bi) (before @ cpt # following) [] []
     = then_do (scan_blocks M blocks (int bi) before [] [])
         (\<lambda>(data_blocks', errors').
            scan_blocks M blocks (int bi + int (length before)) (cpt # following)
              data_blocks' errors')"
    by (rule scan_blocks_append [OF no_cpt_before])
  also have "scan_blocks M blocks (int bi) before [] [] = Inr (data_blocks, errors)"
    using before by (cases is_data) (simp_all add: bi_def)
  finally have scan: "scan_blocks M blocks (int bi) (drop bi blocks) [] []
     = Inr (data_blocks @
              [\<lparr>db_metadata = dict_merge (setitem ''type'' (Str ''cpt'') metadata) trailing,
                db_data = data\<rparr>], errors)"
    using at_cpt scanned by (simp add: bi_def)
  have g0: "getitem blocks 0 = Inr (blocks ! 0)"
    and g1: "getitem blocks 1 = Inr (blocks ! 1)"
    and g2: "getitem blocks 2 = Inr (blocks ! 2)"
    using enough by (auto simp add: getitem_def)
  show ?thesis
  proof (cases is_data)
    case True
    with scan third first second third_is_data enough g0 g1 g2 blocks show ?thesis
      by (simp add: parse_snd_file_def parse_snd_blocks_def bi_def Let_def)
  next
    case False
    with scan third first second third_is_data enough g0 g1 g2 blocks show ?thesis
      by (simp add: parse_snd_file_def parse_snd_blocks_def bi_def Let_def)
  qed
qed

text \<open>
  Claim C2. A sound file with fewer than three blocks gives a result with an error entry
  and no data block. For a well-formed file with a CPT data block: let the first two
  blocks parse as metadata, let the third block be classified, and parsed as metadata
  when it is not a data block; let the blocks scanned from there be \<open>before\<close>, then the
  first CPT data block \<open>cpt\<close>, then \<open>following\<close>, where the scan of \<open>before\<close> returns and
  the trailing metadata read from the head of \<open>following\<close> parses. Then the result holds
  the entries of \<open>before\<close> and one last entry, the metadata of the CPT block merged with
  the trailing metadata of the block right after it, with the rows of the CPT block; no
  block of \<open>following\<close> adds an entry or an error, whatever it holds.
\<close>

theorem parse_snd_file_blocks:
  "(length (get_blocks short) < 3 \<longrightarrow>
      (\<exists>r. parse_snd_file M short 3 = Inr r \<and> snd_errors r \<noteq> [] \<and> snd_blocks r = []))
   \<and> (get_blocks lines = blocks \<and> 3 \<le> length blocks
       \<and> parse_metadata_block (blocks ! 0) (first_block_mapping M) = Inr first_block
       \<and> parse_metadata_block (blocks ! 1) (second_block_mapping M) = Inr second_block
       \<and> is_data_block (blocks ! 2) = Inr is_data
       \<and> (if is_data then Inr (initialize_empty_mapping (third_block_mapping M))
           else parse_metadata_block (blocks ! 2) (third_block_mapping M)) = Inr third_block
       \<and> drop (if is_data then 2 else 3) blocks = before @ cpt # following
       \<and> list_all (\<lambda>b. \<not> is_cpt_data_block M b) before
       \<and> scan_blocks M blocks (if is_data then 2 else 3) before [] []
           = Inr (data_blocks, errors)
       \<and> is_cpt_data_block M cpt
       \<and> parse_unknown_data_block M cpt = Inr (metadata, data)
       \<and> trailing_metadata_of M following = Inr trailing
      \<longrightarrow>
      parse_snd_file M lines 3
        = Inr \<lparr>snd_metadata = dict_merge (dict_merge first_block second_block) third_block,
               snd_blocks = data_blocks @
                 [\<lparr>db_metadata = dict_merge (setitem ''type'' (Str ''cpt'') metadata) trailing,
                   db_data = data\<rparr>],
               snd_errors = errors\<rparr>)"
  using parse_snd_file_few_blocks [of short M]
    parse_snd_file_cpt [of lines blocks M first_block second_block is_data third_block before
      cpt following data_blocks errors metadata data trailing]
  by blast


theorem parse_snd_file_blocks_witness:
  "parse_snd_file example_mappings example_snd_lines 3
     = Inr \<lparr>snd_metadata =
              [(''x'', Str ''head''), (''y'', Str ''second''), (''guid'', Str ''guid-1'')],
            snd_blocks =
              [\<lparr>db_metadata =
                  [(''survey_type_code'', Num 25), (''date'', Str ''01.02.2020''),
                   (''type'', Str ''tot'')],
                db_data =
                  [[(''dybde'', Num 1), (''kommentar'', Str ''R1''), (''okt_rotasjon'', Num 1),
                    (''spyling'', Nan), (''slag'', Nan), (''pumping'', Nan),
                    (''comment_label'', Nan)]]\<rparr>,
               \<lparr>db_metadata =
                  [(''survey_type_code'', Num 7), (''date'', Str ''01.02.2020''),
                   (''type'', Str ''cpt''), (''u'', Str ''trailer'')],
                db_data = [[(''dybde'', Num 1)]]\<rparr>],
            snd_errors = []\<rparr>
   \<and> (\<exists>r. parse_snd_file example_mappings [''a'', ''*'', ''b''] 3 = Inr r
          \<and> snd_errors r \<noteq> [] \<and> snd_blocks r = [])"
proof -
  let ?M = example_mappings
  let ?tot = "[''25 01.02.2020'', ''meta'', ''1 R1'']"
  let ?cpt = "[''7 01.02.2020'', ''meta'', ''1 2 3 4 comment'']"
  let ?tot2 = "[''25 03.02.2020'', ''meta'', ''5 R2'']"
  let ?blocks = "[[''head''], [''second''], [''guid-1''], ?tot, ?cpt, [''trailer''], ?tot2]"
  let ?tot_entry = "\<lparr>db_metadata =
                  [(''survey_type_code'', Num 25), (''date'', Str ''01.02.2020''),
                   (''type'', Str ''tot'')],
                db_data =
                  [[(''dybde'', Num 1), (''kommentar'', Str ''R1''), (''okt_rotasjon'', Num 1),
                    (''spyling'', Nan), (''slag'', Nan), (''pumping'', Nan),
                    (''comment_label'', Nan)]]\<rparr>"
  let ?md = "[(''survey_type_code'', Num 7), (''date'', Str ''01.02.2020'')]"
  note T = parse_snd_file_blocks [where M = ?M and short = "[''a'', ''*'', ''b'']"
      and lines = example_snd_lines and blocks = ?blocks
      and first_block = "[(''x'', Str ''head'')]" and second_block = "[(''y'', Str ''second'')]"
      and is_data = False and third_block = "[(''guid'', Str ''guid-1'')]"
      and before = "[?tot]" and cpt = ?cpt and following = "[[''trailer''], ?tot2]"
      and data_blocks = "[?tot_entry]" and errors = "[]"
      and metadata = ?md and data = "[[(''dybde'', Num 1)]]"
      and trailing = "[(''u'', Str ''trailer'')]"]
  have main: "parse_snd_file ?M example_snd_lines 3
     = Inr \<lparr>snd_metadata = dict_merge (dict_merge [(''x'', Str ''head'')]
                [(''y'', Str ''second'')]) [(''guid'', Str ''guid-1'')],
            snd_blocks = [?tot_entry] @
              [\<lparr>db_metadata = dict_merge (setitem ''type'' (Str ''cpt'') ?md)
                  [(''u'', Str ''trailer'')],
                db_data = [[(''dybde'', Num 1)]]\<rparr>],
            snd_errors = []\<rparr>"
  proof (rule T [THEN conjunct2, THEN mp], intro conjI)
    show "get_blocks example_snd_lines = ?blocks" by code_simp
    show "3 \<le> length ?blocks" by simp
    show "parse_metadata_block (?blocks ! 0) (first_block_mapping ?M) = Inr [(''x'', Str ''head'')]"
      by code_simp
    show "parse_metadata_block (?blocks ! 1) (second_block_mapping ?M)
            = Inr [(''y'', Str ''second'')]"
      by code_simp
    show "is_data_block (?blocks ! 2) = Inr False" by code_simp
    show "(if False then Inr (initialize_empty_mapping (third_block_mapping ?M))
           else parse_metadata_block (?blocks ! 2) (third_block_mapping ?M))
            = Inr [(''guid'', Str ''guid-1'')]"
      by code_simp
    show "drop (if False then 2 else 3) ?blocks = [?tot] @ ?cpt # [[''trailer''], ?tot2]"
      by simp
    show "list_all (\<lambda>b. \<not> is_cpt_data_block ?M b) [?tot]" by code_simp
    show "scan_blocks ?M ?blocks (if False then 2 else 3) [?tot] [] [] = Inr ([?tot_entry], [])"
      by code_simp
    show "is_cpt_data_block ?M ?cpt" by code_simp
    show "parse_unknown_data_block ?M ?cpt = Inr (?md, [[(''dybde'', Num 1)]])" by code_simp
    show "trailing_metadata_of ?M [[''trailer''], ?tot2] = Inr [(''u'', Str ''trailer'')]"
      by code_simp
  qed
  have few: "\<exists>r. parse_snd_file ?M [''a'', ''*'', ''b''] 3 = Inr r
               \<and> snd_errors r \<noteq> [] \<and> snd_blocks r = []"
  proof (rule T [THEN conjunct1, THEN mp])
    show "length (get_blocks [''a'', ''*'', ''b'']) < 3" by code_simp
  qed
  from main few show ?thesis by (simp add: dict_merge_def)
qed

section \<open>Properties of the store form of the parser\<close>

subsection \<open>The objects that exist before a call are not changed\<close>

lemma take_append_item: "n \<le> a \<Longrightarrow> take n (append_item h a x) = take n h"
  by (simp add: append_item_def)

lemma get_blocks_loop_st_frame:
  "n \<le> blocks \<Longrightarrow> n \<le> current_block \<Longrightarrow> n \<le> length h \<Longrightarrow>
   take n (snd (get_blocks_loop_st lines blocks current_block h)) = take n h
   \<and> n \<le> fst (get_blocks_loop_st lines blocks current_block h)
   \<and> n \<le> length (snd (get_blocks_loop_st lines blocks current_block h))"
proof (induction lines arbitrary: current_block h)
  case Nil
  then show ?case by simp
next
  case (Cons line lines)
  show ?case
  proof (cases "line = Line ''*''")
    case True
    have "take n (snd (get_blocks_loop_st lines blocks (length h)
                   (append_item h blocks (Ref current_block) @ [[]])))
            = take n (append_item h blocks (Ref current_block) @ [[]])
          \<and> n \<le> fst (get_blocks_loop_st lines blocks (length h)
                   (append_item h blocks (Ref current_block) @ [[]]))
          \<and> n \<le> length (snd (get_blocks_loop_st lines blocks (length h)
                   (append_item h blocks (Ref current_block) @ [[]])))"
      by (rule Cons.IH) (use Cons.prems in \<open>simp_all add: append_item_def\<close>)
    with True Cons.prems show ?thesis by (simp add: append_item_def)
  next
    case False
    have "take n (snd (get_blocks_loop_st lines blocks current_block
                   (append_item h current_block line)))
            = take n (append_item h current_block line)
          \<and> n \<le> fst (get_blocks_loop_st lines blocks current_block
                   (append_item h current_block line))
          \<and> n \<le> length (snd (get_blocks_loop_st lines blocks current_block
                   (append_item h current_block line)))"
      by (rule Cons.IH) (use Cons.prems in \<open>simp_all add: append_item_def\<close>)
    with False Cons.prems show ?thesis by (simp add: append_item_def)
  qed
qed

lemma get_blocks_st_frame: "take (length h) (snd (get_blocks_st lines h)) = h"
proof -
  obtain current_block h2 where
    loop: "get_blocks_loop_st ((h @ [[], []]) ! lines) (length h) (length h + 1) (h @ [[], []])
             = (current_block, h2)"
    by (cases "get_blocks_loop_st ((h @ [[], []]) ! lines) (length h) (length h + 1) (h @ [[], []])")
  from get_blocks_loop_st_frame [of "length h" "length h" "length h + 1" "h @ [[], []]"
      "(h @ [[], []]) ! lines"] loop
  have "take (length h) h2 = h" and "length h \<le> length h2" by simp_all
  with loop show ?thesis
    by (simp add: get_blocks_st_def Let_def append_item_def)
qed

lemma split_tlk_loop_st_frame:
  "n \<le> blocks \<Longrightarrow> n \<le> block \<Longrightarrow> n \<le> length h \<Longrightarrow>
   take n (snd (split_tlk_loop_st lines blocks block c h)) = take n h
   \<and> n \<le> fst (split_tlk_loop_st lines blocks block c h)
   \<and> n \<le> length (snd (split_tlk_loop_st lines blocks block c h))"
proof (induction lines arbitrary: block c h)
  case Nil
  then show ?case by simp
next
  case (Cons line lines)
  show ?case
  proof (cases "line = Line ''*''")
    case True
    with Cons.prems show ?thesis by simp
  next
    case not_star: False
    show ?thesis
    proof (cases "c = 3")
      case True
      let ?h = "append_item (append_item h blocks (Ref block) @ [[]]) (length h) line"
      have "take n (snd (split_tlk_loop_st lines blocks (length h) 1 ?h)) = take n ?h
            \<and> n \<le> fst (split_tlk_loop_st lines blocks (length h) 1 ?h)
            \<and> n \<le> length (snd (split_tlk_loop_st lines blocks (length h) 1 ?h))"
        by (rule Cons.IH) (use Cons.prems in \<open>simp_all add: append_item_def\<close>)
      with not_star True Cons.prems show ?thesis by (simp add: append_item_def)
    next
      case False
      let ?h = "append_item h block line"
      have "take n (snd (split_tlk_loop_st lines blocks block (c + 1) ?h)) = take n ?h
            \<and> n \<le> fst (split_tlk_loop_st lines blocks block (c + 1) ?h)
            \<and> n \<le> length (snd (split_tlk_loop_st lines blocks block (c + 1) ?h))"
        by (rule Cons.IH) (use Cons.prems in \<open>simp_all add: append_item_def\<close>)
      with not_star False Cons.prems show ?thesis by (simp add: append_item_def)
    qed
  qed
qed

lemma split_tlk_to_blocks_st_frame:
  "take (length h) (snd (split_tlk_to_blocks_st lines h)) = h
   \<and> length h \<le> length (snd (split_tlk_to_blocks_st lines h))"
proof -
  obtain block h2 where
    loop: "split_tlk_loop_st ((h @ [[], []]) ! lines) (length h) (length h + 1) 0 (h @ [[], []])
             = (block, h2)"
    by (cases "split_tlk_loop_st ((h @ [[], []]) ! lines) (length h) (length h + 1) 0
                 (h @ [[], []])")
  from split_tlk_loop_st_frame [of "length h" "length h" "length h + 1" "h @ [[], []]"
      "(h @ [[], []]) ! lines" 0] loop
  have "take (length h) h2 = h" and "length h \<le> length h2" by simp_all
  with loop show ?thesis
    by (simp add: split_tlk_to_blocks_st_def Let_def append_item_def)
qed

lemma add_empty_value_st_frame:
  "n \<le> length h \<Longrightarrow>
   take n (snd (add_empty_value_as_material_text_1_st block h)) = take n h
   \<and> n \<le> length (snd (add_empty_value_as_material_text_1_st block h))"
  by (auto simp: add_empty_value_as_material_text_1_st_def Let_def
      split: list.splits item.splits)

lemma parse_tlk_block_st_frame:
  "n \<le> length h \<Longrightarrow>
   take n (snd (parse_tlk_block_st M block h)) = take n h
   \<and> n \<le> length (snd (parse_tlk_block_st M block h))"
  using add_empty_value_st_frame [of n h block]
  by (auto simp: parse_tlk_block_st_def split: sum.splits prod.splits)

lemma parse_tlk_blocks_st_frame:
  "n \<le> length h \<Longrightarrow> take n (snd (parse_tlk_blocks_st M blocks rows errors h)) = take n h"
proof (induction blocks arbitrary: rows errors h)
  case Nil
  then show ?case by simp
next
  case (Cons block blocks)
  obtain r h1 where step: "parse_tlk_block_st M block h = (r, h1)"
    by (cases "parse_tlk_block_st M block h")
  with parse_tlk_block_st_frame [OF Cons.prems, of M block]
  have h1: "take n h1 = take n h" and len: "n \<le> length h1" by simp_all
  from step h1 Cons.IH [OF len] show ?case by (cases r) simp_all
qed

lemma parse_tlk_file_st_frame: "take (length h) (snd (parse_tlk_file_st M lines h)) = h"
proof (cases "h ! lines = []")
  case True
  then show ?thesis by (simp add: parse_tlk_file_st_def)
next
  case False
  obtain blocks h1 where seg: "split_tlk_to_blocks_st lines h = (blocks, h1)"
    by (cases "split_tlk_to_blocks_st lines h")
  with split_tlk_to_blocks_st_frame [of h lines]
  have h1: "take (length h) h1 = h" and len: "length h \<le> length h1" by simp_all
  from parse_tlk_blocks_st_frame [OF len, of M "item_refs (h1 ! blocks)" "[]" "[]"] h1
  have "take (length h) (snd (parse_tlk_blocks_st M (item_refs (h1 ! blocks)) [] [] h1)) = h"
    by simp
  with False seg show ?thesis
    by (simp add: parse_tlk_file_st_def case_prod_beta)
qed


lemma parse_snd_file_st_frame:
  "take (length h) (snd (parse_snd_file_st M lines min_blocks h)) = h"
  using get_blocks_st_frame [of h lines]
  by (simp add: parse_snd_file_st_def case_prod_beta)

lemma parse_prv_file_st_frame: "take (length h) (snd (parse_prv_file_st M lines h)) = h"
  using get_blocks_st_frame [of h lines]
  by (simp add: parse_prv_file_st_def case_prod_beta)

lemma nth_of_take:
  assumes "take n h' = h" and "a < length h"
  shows "h' ! a = h ! a"
proof -
  from assms have "a < n" by auto
  then have "take n h' ! a = h' ! a" by simp
  with assms(1) show ?thesis by simp
qed

subsection \<open>The store form computes what the functions on values compute\<close>

lemma item_refs_append [simp]: "item_refs (xs @ ys) = item_refs xs @ item_refs ys"
  by (induction xs rule: item_refs.induct) auto

lemma item_lines_map_Line [simp]: "item_lines (map Line ls) = ls"
  by (induction ls) auto

lemma item_refs_map_Ref [simp]: "item_refs (map Ref rs) = rs"
  by (induction rs) auto

lemma holds_lines_item_lines: "holds_lines h a ls \<Longrightarrow> item_lines (h ! a) = ls"
  by (simp add: holds_lines_def)

lemma holds_lines_update_other:
  "holds_lines h a ls \<Longrightarrow> a \<noteq> b \<Longrightarrow> holds_lines (h[b := x]) a ls"
  by (simp add: holds_lines_def)

lemma holds_lines_extend: "holds_lines h a ls \<Longrightarrow> holds_lines (h @ xs) a ls"
  by (simp add: holds_lines_def nth_append)

lemma holds_lines_kept:
  assumes "take (length h) h' = h" and "holds_lines h a ls"
  shows "holds_lines h' a ls"
proof -
  from assms(2) have a: "a < length h" and ls: "h ! a = map Line ls"
    by (simp_all add: holds_lines_def)
  from assms(1) have "length (take (length h) h') = length h" by simp
  then have "length h \<le> length h'" by simp
  with a nth_of_take [OF assms(1) a] ls show ?thesis by (simp add: holds_lines_def)
qed

lemma all_holds_lines_blocks:
  "list_all2 (holds_lines h) rs bs \<Longrightarrow> map (\<lambda>r. item_lines (h ! r)) rs = bs"
  by (induction rs bs rule: list_all2_induct) (auto simp: holds_lines_item_lines)

lemma segmenting_blocks_at:
  "segmenting h blocks cur rs bs c \<Longrightarrow> blocks_at h blocks = bs"
  by (simp add: segmenting_def blocks_at_def all_holds_lines_blocks)

lemma segmenting_line:
  assumes "segmenting h blocks cur rs bs c"
  shows "segmenting (append_item h cur (Line s)) blocks cur rs bs (c @ [s])"
proof -
  from assms have others: "list_all2 (holds_lines h) rs bs" and out: "cur \<notin> set rs"
    by (simp_all add: segmenting_def)
  from others have "list_all2 (holds_lines (append_item h cur (Line s))) rs bs"
    by (rule list.rel_mono_strong)
       (use out in \<open>auto simp: append_item_def intro: holds_lines_update_other\<close>)
  with assms show ?thesis
    by (auto simp: segmenting_def append_item_def holds_lines_def)
qed

lemma segmenting_star:
  assumes "segmenting h blocks cur rs bs c"
  shows "segmenting (append_item h blocks (Ref cur) @ [[]]) blocks (length h)
           (rs @ [cur]) (bs @ [c]) []"
proof -
  let ?h = "append_item h blocks (Ref cur) @ [[]]"
  from assms have others: "list_all2 (holds_lines h) rs bs" and out: "blocks \<notin> set rs"
    and cur: "holds_lines h cur c" and ne: "cur \<noteq> blocks" and b: "blocks < length h"
    and refs: "h ! blocks = map Ref rs"
    by (simp_all add: segmenting_def)
  from others have old: "list_all2 (holds_lines ?h) rs bs"
    by (rule list.rel_mono_strong)
       (use out in \<open>auto simp: append_item_def
          intro: holds_lines_update_other holds_lines_extend\<close>)
  from cur ne have new: "holds_lines ?h cur c"
    by (auto simp: append_item_def intro: holds_lines_update_other holds_lines_extend)
  from others have bound: "\<forall>r\<in>set rs. r < length h"
    by (induction rs bs rule: list_all2_induct) (auto simp: holds_lines_def)
  from cur have cur_bound: "cur < length h" by (simp add: holds_lines_def)
  from old new have all: "list_all2 (holds_lines ?h) (rs @ [cur]) (bs @ [c])"
    by (simp add: list_all2_appendI)
  from b refs have at_blocks: "?h ! blocks = map Ref (rs @ [cur])"
    by (simp add: append_item_def nth_append)
  have fresh: "holds_lines ?h (length h) []"
    by (simp add: holds_lines_def append_item_def nth_append)
  from b bound cur_bound out ne all at_blocks fresh show ?thesis
    by (auto simp: segmenting_def append_item_def)
qed

lemma get_blocks_loop_st_refines:
  "segmenting h blocks cur rs bs c \<Longrightarrow>
   \<exists>rs'. segmenting (snd (get_blocks_loop_st (map Line ls) blocks cur h)) blocks
           (fst (get_blocks_loop_st (map Line ls) blocks cur h)) rs'
           (fst (get_blocks_loop ls bs c)) (snd (get_blocks_loop ls bs c))"
proof (induction ls arbitrary: h cur rs bs c)
  case Nil
  then show ?case by auto
next
  case (Cons l ls)
  show ?case
  proof (cases "l = ''*''")
    case True
    from Cons.IH [OF segmenting_star [OF Cons.prems]] True show ?thesis by simp
  next
    case False
    from Cons.IH [OF segmenting_line [OF Cons.prems, of l]] False show ?thesis by simp
  qed
qed

lemma segmenting_start:
  "segmenting (h @ [[], []]) (length h) (length h + 1) [] [] []"
  by (simp add: segmenting_def holds_lines_def nth_append)

lemma all_holds_lines_bound:
  "list_all2 (holds_lines h) rs bs \<Longrightarrow> r \<in> set rs \<Longrightarrow> r < length h"
  by (induction rs bs rule: list_all2_induct) (auto simp: holds_lines_def)

lemma all_holds_lines_filter:
  "list_all2 (holds_lines h) rs bs \<Longrightarrow>
   map (\<lambda>r. item_lines (h ! r)) (filter (\<lambda>r. h ! r \<noteq> []) rs) = filter (\<lambda>b. b \<noteq> []) bs"
  by (induction rs bs rule: list_all2_induct) (auto simp: holds_lines_def)

lemma filter_truthy_refs:
  "filter (truthy h) (map Ref rs) = map Ref (filter (\<lambda>r. h ! r \<noteq> []) rs)"
  by (induction rs) (auto simp: truthy_def)

lemma blocks_at_comprehension:
  assumes "blocks < length h" and "h ! blocks = map Ref rs"
    and "list_all2 (holds_lines h) rs bs"
  shows "blocks_at (h @ [filter (truthy h) (h ! blocks)]) (length h) = filter (\<lambda>b. b \<noteq> []) bs"
proof -
  have "map (\<lambda>r. item_lines ((h @ [filter (truthy h) (h ! blocks)]) ! r))
          (filter (\<lambda>r. h ! r \<noteq> []) rs)
        = map (\<lambda>r. item_lines (h ! r)) (filter (\<lambda>r. h ! r \<noteq> []) rs)"
    using all_holds_lines_bound [OF assms(3)] by (auto simp: nth_append)
  with all_holds_lines_filter [OF assms(3)] show ?thesis
    by (simp add: blocks_at_def assms(2) filter_truthy_refs)
qed

lemma get_blocks_st_refines:
  assumes "holds_lines h lines ls"
  shows "blocks_at (snd (get_blocks_st lines h)) (fst (get_blocks_st lines h)) = get_blocks ls"
proof -
  let ?h1 = "h @ [[], []]"
  from assms have input: "?h1 ! lines = map Line ls"
    by (simp add: holds_lines_def nth_append)
  obtain cur h2 where loop: "get_blocks_loop_st (map Line ls) (length h) (length h + 1) ?h1
                               = (cur, h2)"
    by (cases "get_blocks_loop_st (map Line ls) (length h) (length h + 1) ?h1")
  obtain bs c where pure: "get_blocks_loop ls [] [] = (bs, c)"
    by (cases "get_blocks_loop ls [] []")
  from get_blocks_loop_st_refines [OF segmenting_start, where ls = ls and h1 = h] loop pure
  obtain rs where inv: "segmenting h2 (length h) cur rs bs c" by auto
  then have b: "length h < length h2" and refs: "h2 ! length h = map Ref rs"
    and others: "list_all2 (holds_lines h2) rs bs" and cur: "holds_lines h2 cur c"
    and ne: "cur \<noteq> length h" and out: "length h \<notin> set rs"
    by (simp_all add: segmenting_def)
  from cur have empty: "(h2 ! cur \<noteq> []) = (c \<noteq> [])" by (simp add: holds_lines_def)
  show ?thesis
  proof (cases "c = []")
    case True
    with empty loop input have st: "get_blocks_st lines h
        = (length h2, h2 @ [filter (truthy h2) (h2 ! length h)])"
      by (simp add: get_blocks_st_def Let_def)
    from True pure have "get_blocks ls = filter (\<lambda>b. b \<noteq> []) bs"
      by (simp add: get_blocks_def)
    with st blocks_at_comprehension [OF b refs others] show ?thesis by simp
  next
    case False
    let ?h3 = "append_item h2 (length h) (Ref cur)"
    from False empty loop input have st: "get_blocks_st lines h
        = (length ?h3, ?h3 @ [filter (truthy ?h3) (?h3 ! length h)])"
      by (simp add: get_blocks_st_def Let_def)
    from others have old: "list_all2 (holds_lines ?h3) rs bs"
      by (rule list.rel_mono_strong)
         (use out in \<open>auto simp: append_item_def intro: holds_lines_update_other\<close>)
    from cur ne have "holds_lines ?h3 cur c"
      by (auto simp: append_item_def intro: holds_lines_update_other)
    with old have all: "list_all2 (holds_lines ?h3) (rs @ [cur]) (bs @ [c])"
      by (simp add: list_all2_appendI)
    from b refs have at: "?h3 ! length h = map Ref (rs @ [cur])"
      by (simp add: append_item_def)
    from b have b3: "length h < length ?h3" by (simp add: append_item_def)
    from False pure have "get_blocks ls = filter (\<lambda>b. b \<noteq> []) (bs @ [c])"
      by (simp add: get_blocks_def)
    with st blocks_at_comprehension [OF b3 at all] show ?thesis by simp
  qed
qed

lemma split_tlk_loop_st_refines:
  "segmenting h blocks cur rs bs b \<Longrightarrow>
   \<exists>rs' bs' b'.
     segmenting (snd (split_tlk_loop_st (map Line ls) blocks cur c h)) blocks
       (fst (split_tlk_loop_st (map Line ls) blocks cur c h)) rs' bs' b'
     \<and> split_tlk_loop ls bs b c = bs' @ [b']"
proof (induction ls arbitrary: h cur rs bs b c)
  case Nil
  then show ?case by auto
next
  case (Cons l ls)
  show ?case
  proof (cases "l = ''*''")
    case True
    with Cons.prems show ?thesis by auto
  next
    case not_star: False
    show ?thesis
    proof (cases "c = 3")
      case True
      from segmenting_line [OF segmenting_star [OF Cons.prems], of l]
      have "segmenting (append_item (append_item h blocks (Ref cur) @ [[]]) (length h) (Line l))
              blocks (length h) (rs @ [cur]) (bs @ [b]) [l]"
        by simp
      from Cons.IH [OF this, of 1] not_star True show ?thesis by simp
    next
      case False
      from Cons.IH [OF segmenting_line [OF Cons.prems, of l], of "c + 1"] not_star False
      show ?thesis by simp
    qed
  qed
qed

lemma segmenting_finish:
  assumes "segmenting h blocks cur rs bs b"
  shows "blocks_at (append_item h blocks (Ref cur)) blocks = bs @ [b]
     \<and> list_all2 (holds_lines (append_item h blocks (Ref cur))) (rs @ [cur]) (bs @ [b])
     \<and> append_item h blocks (Ref cur) ! blocks = map Ref (rs @ [cur])"
proof -
  let ?h = "append_item h blocks (Ref cur)"
  from assms have others: "list_all2 (holds_lines h) rs bs" and out: "blocks \<notin> set rs"
    and cur: "holds_lines h cur b" and ne: "cur \<noteq> blocks" and bl: "blocks < length h"
    and refs: "h ! blocks = map Ref rs"
    by (simp_all add: segmenting_def)
  from others have old: "list_all2 (holds_lines ?h) rs bs"
    by (rule list.rel_mono_strong)
       (use out in \<open>auto simp: append_item_def intro: holds_lines_update_other\<close>)
  from cur ne have "holds_lines ?h cur b"
    by (auto simp: append_item_def intro: holds_lines_update_other)
  with old have all: "list_all2 (holds_lines ?h) (rs @ [cur]) (bs @ [b])"
    by (simp add: list_all2_appendI)
  from bl refs have at: "?h ! blocks = map Ref (rs @ [cur])"
    by (simp add: append_item_def)
  from all at show ?thesis
    using all_holds_lines_blocks [OF all] by (simp add: blocks_at_def)
qed

lemma split_tlk_to_blocks_st_refines:
  assumes "holds_lines h lines ls"
  shows "\<exists>rs. snd (split_tlk_to_blocks_st lines h) ! fst (split_tlk_to_blocks_st lines h)
                 = map Ref rs
            \<and> list_all2 (holds_lines (snd (split_tlk_to_blocks_st lines h))) rs
                 (split_tlk_to_blocks ls)"
proof -
  let ?h1 = "h @ [[], []]"
  from assms have input: "?h1 ! lines = map Line ls"
    by (simp add: holds_lines_def nth_append)
  obtain cur h2 where loop:
    "split_tlk_loop_st (map Line ls) (length h) (length h + 1) 0 ?h1 = (cur, h2)"
    by (cases "split_tlk_loop_st (map Line ls) (length h) (length h + 1) 0 ?h1")
  from split_tlk_loop_st_refines [OF segmenting_start, where ls = ls and h1 = h and c = 0] loop
  obtain rs bs b where inv: "segmenting h2 (length h) cur rs bs b"
    and pure: "split_tlk_loop ls [] [] 0 = bs @ [b]"
    by auto
  have st: "split_tlk_to_blocks_st lines h = (length h, append_item h2 (length h) (Ref cur))"
    using loop input by (simp add: split_tlk_to_blocks_st_def Let_def)
  from segmenting_finish [OF inv] st pure show ?thesis
    by (intro exI [of _ "rs @ [cur]"]) (simp add: split_tlk_to_blocks_def)
qed

lemma add_empty_value_st_refines:
  assumes "holds_lines h block b"
  shows "case add_empty_value_as_material_text_1_st block h of
           (Inl e, h1) \<Rightarrow> add_empty_value_as_material_text_1 b = Inl e
         | (Inr temp_block, h1) \<Rightarrow>
             add_empty_value_as_material_text_1 b = Inr (item_lines (h1 ! temp_block))"
  using assms
  by (cases b)
     (auto simp: add_empty_value_as_material_text_1_st_def
       add_empty_value_as_material_text_1_def holds_lines_def Let_def nth_append)

lemma parse_tlk_block_st_refines:
  assumes "holds_lines h block b"
  shows "fst (parse_tlk_block_st M block h) = parse_tlk_block M b"
proof (cases "is_unknown_material b")
  case (Inl e)
  with assms show ?thesis
    by (simp add: parse_tlk_block_st_def parse_tlk_block_def holds_lines_def)
next
  case (Inr unknown)
  show ?thesis
  proof (cases unknown)
    case False
    with Inr assms show ?thesis
      by (simp add: parse_tlk_block_st_def parse_tlk_block_def holds_lines_def)
  next
    case True
    obtain r h1 where step: "add_empty_value_as_material_text_1_st block h = (r, h1)"
      by (cases "add_empty_value_as_material_text_1_st block h")
    with add_empty_value_st_refines [OF assms] True Inr assms show ?thesis
      by (cases r) (simp_all add: parse_tlk_block_st_def parse_tlk_block_def holds_lines_def)
  qed
qed

lemma parse_tlk_blocks_st_refines:
  "list_all2 (holds_lines h) rs bs \<Longrightarrow>
   fst (parse_tlk_blocks_st M rs rows errors h) = parse_tlk_blocks M bs rows errors"
proof (induction rs arbitrary: bs rows errors h)
  case Nil
  then show ?case by simp
next
  case (Cons r rs)
  from Cons.prems obtain b bs' where bs: "bs = b # bs'" and this_one: "holds_lines h r b"
    and rest: "list_all2 (holds_lines h) rs bs'"
    by (auto simp: list_all2_Cons1)
  obtain res h1 where step: "parse_tlk_block_st M r h = (res, h1)"
    by (cases "parse_tlk_block_st M r h")
  from parse_tlk_block_st_refines [OF this_one, of M] step
  have res: "res = parse_tlk_block M b" by simp
  from this_one have "length h \<le> length h" by simp
  from parse_tlk_block_st_frame [OF this, of M r] step
  have "take (length h) h1 = h" by simp
  with rest have "list_all2 (holds_lines h1) rs bs'"
    by (auto elim!: list.rel_mono_strong intro: holds_lines_kept)
  from Cons.IH [OF this] step res bs show ?case
    by (cases "parse_tlk_block M b") simp_all
qed

lemma parse_tlk_file_st_refines:
  assumes "holds_lines h lines ls"
  shows "fst (parse_tlk_file_st M lines h) = parse_tlk_file M ls"
proof (cases "ls = []")
  case True
  with assms show ?thesis
    by (simp add: parse_tlk_file_st_def parse_tlk_file_def holds_lines_def)
next
  case False
  with assms have ne: "h ! lines \<noteq> []" by (simp add: holds_lines_def)
  obtain blocks h1 where seg: "split_tlk_to_blocks_st lines h = (blocks, h1)"
    by (cases "split_tlk_to_blocks_st lines h")
  with split_tlk_to_blocks_st_refines [OF assms]
  obtain rs where refs: "h1 ! blocks = map Ref rs"
    and all: "list_all2 (holds_lines h1) rs (split_tlk_to_blocks ls)"
    by auto
  from parse_tlk_blocks_st_refines [OF all, of M "[]" "[]"] refs seg ne False
  show ?thesis
    by (simp add: parse_tlk_file_st_def parse_tlk_file_def case_prod_beta)
qed

lemma parse_snd_file_st_refines:
  assumes "holds_lines h lines ls"
  shows "fst (parse_snd_file_st M lines min_blocks h) = parse_snd_file M ls min_blocks"
  using get_blocks_st_refines [OF assms]
  by (simp add: parse_snd_file_st_def parse_snd_file_def case_prod_beta)

lemma parse_prv_file_st_refines:
  assumes "holds_lines h lines ls"
  shows "fst (parse_prv_file_st M lines h) = parse_prv_file M ls"
  using get_blocks_st_refines [OF assms]
  by (simp add: parse_prv_file_st_def parse_prv_file_def case_prod_beta)

text \<open>
  Claim C10. Let the caller's list at the address \<open>lines\<close> hold the strings \<open>ls\<close>. Each of
  the three entry points, run on the store, returns the result that the entry point on
  values returns for \<open>ls\<close>, and leaves every list object that existed before the call as
  it was: the store after the call starts with the store before it, and the caller's list
  still holds \<open>ls\<close>. The segmenters write only to the lists they allocate, and the patch
  of the first line is written to the copy of the block.
\<close>

theorem parse_files_leave_lists_unchanged:
  assumes "holds_lines h lines ls"
  shows "fst (parse_snd_file_st M lines min_blocks h) = parse_snd_file M ls min_blocks
     \<and> take (length h) (snd (parse_snd_file_st M lines min_blocks h)) = h
     \<and> holds_lines (snd (parse_snd_file_st M lines min_blocks h)) lines ls
     \<and> fst (parse_tlk_file_st M lines h) = parse_tlk_file M ls
     \<and> take (length h) (snd (parse_tlk_file_st M lines h)) = h
     \<and> holds_lines (snd (parse_tlk_file_st M lines h)) lines ls
     \<and> fst (parse_prv_file_st M lines h) = parse_prv_file M ls
     \<and> take (length h) (snd (parse_prv_file_st M lines h)) = h
     \<and> holds_lines (snd (parse_prv_file_st M lines h)) lines ls"
proof -
  note snd = parse_snd_file_st_frame [of h M lines min_blocks]
  note tlk = parse_tlk_file_st_frame [of h M lines]
  note prv = parse_prv_file_st_frame [of h M lines]
  from parse_snd_file_st_refines [OF assms] parse_tlk_file_st_refines [OF assms]
    parse_prv_file_st_refines [OF assms] snd tlk prv
    holds_lines_kept [OF snd assms] holds_lines_kept [OF tlk assms]
    holds_lines_kept [OF prv assms]
  show ?thesis by (intro conjI)
qed

theorem parse_files_leave_lists_unchanged_witness:
  "holds_lines example_heap 0
     [''1.0 clay'', ''b'', ''c'', '' 2.0 Annet'', ''*'', ''e'']
   \<and> holds_lines (snd (parse_tlk_file_st example_mappings 0 example_heap)) 0
       [''1.0 clay'', ''b'', ''c'', '' 2.0 Annet'', ''*'', ''e'']
   \<and> take (length example_heap) (snd (parse_snd_file_st example_mappings 0 3 example_heap))
       = example_heap
   \<and> snd (parse_tlk_file_st example_mappings 0 example_heap)
       = example_heap @ [[Ref 3, Ref 4], [Line ''1.0 clay'', Line ''b'', Line ''c''],
                         [Line '' 2.0 Annet''], [Line ''None 2.0 Annet'']]"
proof (intro conjI)
  show h: "holds_lines example_heap 0 [''1.0 clay'', ''b'', ''c'', '' 2.0 Annet'', ''*'', ''e'']"
    by code_simp
  note T = parse_files_leave_lists_unchanged [OF h, of example_mappings 3]
  from T show "holds_lines (snd (parse_tlk_file_st example_mappings 0 example_heap)) 0
       [''1.0 clay'', ''b'', ''c'', '' 2.0 Annet'', ''*'', ''e'']"
    by (elim conjE)
  from T show "take (length example_heap)
       (snd (parse_snd_file_st example_mappings 0 3 example_heap)) = example_heap"
    by (elim conjE)
  show "snd (parse_tlk_file_st example_mappings 0 example_heap)
       = example_heap @ [[Ref 3, Ref 4], [Line ''1.0 clay'', Line ''b'', Line ''c''],
                         [Line '' 2.0 Annet''], [Line ''None 2.0 Annet'']]"
    by code_simp
qed

end
